theory Spec2Isabelle
  imports
    Complex_Main
    "HOL-Library.Multiset"
    "HOL-Library.Char_ord"
    "HOL-Library.List_Lexorder"
    "HOL-Library.Product_Lexorder"
begin

section \<open>Storage record model\<close>

text \<open>
  \<^verbatim>\<open>db/interfaces.ts\<close> declares \<^verbatim>\<open>PostRecord\<close>; the adapters' \<^verbatim>\<open>create\<close> takes
  \<^verbatim>\<open>Omit<PostRecord, 'id'>\<close>. The record \<open>post\<close> is that argument type and, at the same
  time, the shape of one stored row (\<^verbatim>\<open>db/schema.ts\<close>, type \<^verbatim>\<open>Post\<close>, and the MongoDB
  \<^verbatim>\<open>PostDocument\<close>); \<open>post_record\<close> adds the \<^verbatim>\<open>id\<close> field (named \<open>post_id\<close> here, since
  \<open>id\<close> is the identity function of HOL).

  An optional or nullable string (\<^verbatim>\<open>replyParent?: string\<close>, \<^verbatim>\<open>string | null\<close>) is a
  \<open>string option\<close>: \<open>None\<close> stands for both \<^verbatim>\<open>undefined\<close> and \<^verbatim>\<open>null\<close>.

  \<^verbatim>\<open>indexedAt\<close> is a JavaScript \<^verbatim>\<open>Date\<close>: it is modelled by its time value, the integer
  number of milliseconds since the epoch. The two SQL adapters store
  \<^verbatim>\<open>indexedAt.toISOString()\<close> in a \<^verbatim>\<open>varchar\<close> column and compare and sort these
  strings; the MongoDB adapter stores the \<^verbatim>\<open>Date\<close>. For the dates of the years 0000 to
  9999 the ISO string has the fixed width of 24 characters and its lexicographic order is
  the order of the time values, and \<^verbatim>\<open>new Date(s)\<close> reads the time value back. The model
  therefore keeps the time value in the column of every backend; invalid dates and dates
  outside these years are outside the model.
\<close>

record post =
  uri :: string
  cid :: string
  replyParent :: "string option"
  replyRoot :: "string option"
  authorDid :: string
  recordJson :: string
  indexedAt :: int

record post_record = post +
  post_id :: string

text \<open>
  The JavaScript idioms \<^verbatim>\<open>x || null\<close> and \<^verbatim>\<open>x || undefined\<close> on an optional string: a
  falsy \<^verbatim>\<open>x\<close> (absent, or the empty string) gives the absent value.
\<close>

fun or_absent :: "string option \<Rightarrow> string option" where
  "or_absent None = None"
| "or_absent (Some s) = (if s = [] then None else Some s)"

text \<open>
  The state of one backend as an adapter sees it. \<open>connected\<close> says that the adapter's
  handle (\<^verbatim>\<open>this.db\<close>, \<^verbatim>\<open>this.pool\<close>) is not \<^verbatim>\<open>null\<close>. The tables are those that
  \<^verbatim>\<open>migrate()\<close> creates, which the factory \<^verbatim>\<open>createDatabaseAdapter\<close> runs before it
  returns an adapter: the posts in insertion order, with \<^verbatim>\<open>uri\<close> as primary key (migration
  \<^verbatim>\<open>001\<close>, the \<^verbatim>\<open>CREATE TABLE post\<close> of the PostgreSQL adapter, the unique index on
  \<^verbatim>\<open>uri\<close> of the MongoDB adapter), and the subscription states keyed by \<^verbatim>\<open>service\<close>.
  Column widths and integer widths of the engines are not modelled.
\<close>

record store =
  connected :: bool
  post_table :: "post list"
  sub_state_table :: "(string \<times> int) list"

text \<open>
  What an adapter call can throw: \<^verbatim>\<open>new Error('Database not connected')\<close>, or the error
  the engine raises when an insert violates the key on \<^verbatim>\<open>uri\<close>. The adapters do not wrap
  the engine's error.
\<close>

datatype db_error = NotConnected | UniqueViolation

text \<open>
  The criteria of \<^verbatim>\<open>findMany\<close>. \<^verbatim>\<open>limit?: number\<close> is a natural number here. The cursor,
  an ISO string in the source, is the time value it denotes; \<open>None\<close> stands for an absent
  cursor and for the empty string, which \<^verbatim>\<open>if (criteria.cursor)\<close> takes alike. The tests
  \<^verbatim>\<open>if (criteria.authorDid)\<close> and \<^verbatim>\<open>if (criteria.limit)\<close> are written out in the adapters:
  an empty \<^verbatim>\<open>authorDid\<close> does not filter and a limit of 0 does not limit.
\<close>

record find_criteria =
  crit_authorDid :: "string option"
  crit_limit :: "nat option"
  crit_cursor :: "int option"

text \<open>
  The engines evaluate \<^verbatim>\<open>ORDER BY "indexedAt" DESC\<close> (\<^verbatim>\<open>.sort({ indexedAt: -1 })\<close>). The
  source names no second sort key, so the order of rows with equal \<^verbatim>\<open>indexedAt\<close> is the
  engine's choice. The adapters take the engine's sort as a parameter; what is known
  about it is that it permutes its input and leaves it sorted by descending
  \<^verbatim>\<open>indexedAt\<close>.
\<close>

type_synonym engine_sort = "post list \<Rightarrow> post list"

definition order_by_indexedAt_desc :: "engine_sort \<Rightarrow> bool" where
  "order_by_indexedAt_desc ord \<longleftrightarrow>
     (\<forall>rows. mset (ord rows) = mset rows \<and>
        sorted_wrt (\<lambda>a b. indexedAt b \<le> indexedAt a) (ord rows))"

text \<open>Two engines: rows of equal \<^verbatim>\<open>indexedAt\<close> oldest first, and newest first.\<close>

definition oldest_first :: engine_sort where
  "oldest_first rows = sort_key (\<lambda>r. - indexedAt r) rows"

definition newest_first :: engine_sort where
  "newest_first rows = sort_key (\<lambda>r. - indexedAt r) (rev rows)"



section \<open>SQLite adapter (\<^verbatim>\<open>db/adapters/sqlite.ts\<close>)\<close>

definition sqlite_row_to_record :: "post \<Rightarrow> post_record" where
  "sqlite_row_to_record row =
     \<lparr>uri = uri row, cid = cid row,
      replyParent = or_absent (replyParent row), replyRoot = or_absent (replyRoot row),
      authorDid = authorDid row, recordJson = recordJson row, indexedAt = indexedAt row,
      post_id = uri row\<rparr>"

definition sqlite_create :: "string \<Rightarrow> post \<Rightarrow> store \<Rightarrow> (db_error + post_record) \<times> store" where
  "sqlite_create randomUUID p s =
     (if \<not> connected s then (Inl NotConnected, s)
      else
        let newPost = \<lparr>uri = uri p, cid = cid p, replyParent = replyParent p,
                       replyRoot = replyRoot p, authorDid = authorDid p,
                       recordJson = recordJson p, indexedAt = indexedAt p,
                       post_id = randomUUID\<rparr>;
            row = \<lparr>uri = uri newPost, cid = cid newPost,
                   replyParent = or_absent (replyParent newPost),
                   replyRoot = or_absent (replyRoot newPost),
                   authorDid = authorDid newPost, recordJson = recordJson newPost,
                   indexedAt = indexedAt newPost\<rparr>
        in if uri row \<in> set (map uri (post_table s)) then (Inl UniqueViolation, s)
           else (Inr newPost, s\<lparr>post_table := post_table s @ [row]\<rparr>))"

definition sqlite_findMany :: "engine_sort \<Rightarrow> find_criteria \<Rightarrow> store \<Rightarrow> db_error + post_record list" where
  "sqlite_findMany ord criteria s =
     (if \<not> connected s then Inl NotConnected
      else
        let q1 = (case crit_authorDid criteria of
                    None \<Rightarrow> post_table s
                  | Some d \<Rightarrow> if d = [] then post_table s
                             else filter (\<lambda>r. authorDid r = d) (post_table s));
            q2 = (case crit_cursor criteria of
                    None \<Rightarrow> q1
                  | Some c \<Rightarrow> filter (\<lambda>r. indexedAt r < c) q1);
            sorted_rows = ord q2;
            rows = (case crit_limit criteria of
                      None \<Rightarrow> sorted_rows
                    | Some n \<Rightarrow> if n = 0 then sorted_rows else take n sorted_rows)
        in Inr (map sqlite_row_to_record rows))"


definition sqlite_deleteByUri :: "string \<Rightarrow> store \<Rightarrow> (db_error + bool) \<times> store" where
  "sqlite_deleteByUri u s =
     (if \<not> connected s then (Inl NotConnected, s)
      else
        let numDeletedRows = length (filter (\<lambda>r. uri r = u) (post_table s))
        in (Inr (0 < numDeletedRows),
            s\<lparr>post_table := filter (\<lambda>r. uri r \<noteq> u) (post_table s)\<rparr>))"

definition sqlite_getAlgorithmFeed ::
    "engine_sort \<Rightarrow> nat \<Rightarrow> int option \<Rightarrow> store \<Rightarrow> db_error + (post_record list \<times> int option)" where
  "sqlite_getAlgorithmFeed ord n cur s =
     (case sqlite_findMany ord \<lparr>crit_authorDid = None, crit_limit = Some n, crit_cursor = cur\<rparr> s of
        Inl e \<Rightarrow> Inl e
      | Inr posts \<Rightarrow>
          Inr (posts, if 0 < length posts then Some (indexedAt (last posts)) else None))"

definition sqlite_subscriptionState_get :: "string \<Rightarrow> store \<Rightarrow> db_error + (string \<times> int) option" where
  "sqlite_subscriptionState_get service s =
     (if \<not> connected s then Inl NotConnected
      else Inr (find (\<lambda>row. fst row = service) (sub_state_table s)))"


section \<open>PostgreSQL adapter (\<^verbatim>\<open>db/adapters/postgresql.ts\<close>)\<close>

definition postgresql_row_to_record :: "post \<Rightarrow> post_record" where
  "postgresql_row_to_record row =
     \<lparr>uri = uri row, cid = cid row,
      replyParent = or_absent (replyParent row), replyRoot = or_absent (replyRoot row),
      authorDid = authorDid row, recordJson = recordJson row, indexedAt = indexedAt row,
      post_id = uri row\<rparr>"

definition postgresql_create :: "string \<Rightarrow> post \<Rightarrow> store \<Rightarrow> (db_error + post_record) \<times> store" where
  "postgresql_create randomUUID p s =
     (if \<not> connected s then (Inl NotConnected, s)
      else
        let newPost = \<lparr>uri = uri p, cid = cid p, replyParent = replyParent p,
                       replyRoot = replyRoot p, authorDid = authorDid p,
                       recordJson = recordJson p, indexedAt = indexedAt p,
                       post_id = randomUUID\<rparr>;
            row = \<lparr>uri = uri newPost, cid = cid newPost,
                   replyParent = or_absent (replyParent newPost),
                   replyRoot = or_absent (replyRoot newPost),
                   authorDid = authorDid newPost, recordJson = recordJson newPost,
                   indexedAt = indexedAt newPost\<rparr>
        in if uri row \<in> set (map uri (post_table s)) then (Inl UniqueViolation, s)
           else (Inr newPost, s\<lparr>post_table := post_table s @ [row]\<rparr>))"

definition postgresql_findMany :: "engine_sort \<Rightarrow> find_criteria \<Rightarrow> store \<Rightarrow> db_error + post_record list" where
  "postgresql_findMany ord criteria s =
     (if \<not> connected s then Inl NotConnected
      else
        let q1 = (case crit_authorDid criteria of
                    None \<Rightarrow> post_table s
                  | Some d \<Rightarrow> if d = [] then post_table s
                             else filter (\<lambda>r. authorDid r = d) (post_table s));
            q2 = (case crit_cursor criteria of
                    None \<Rightarrow> q1
                  | Some c \<Rightarrow> filter (\<lambda>r. indexedAt r < c) q1);
            sorted_rows = ord q2;
            rows = (case crit_limit criteria of
                      None \<Rightarrow> sorted_rows
                    | Some n \<Rightarrow> if n = 0 then sorted_rows else take n sorted_rows)
        in Inr (map postgresql_row_to_record rows))"


definition postgresql_deleteByUri :: "string \<Rightarrow> store \<Rightarrow> (db_error + bool) \<times> store" where
  "postgresql_deleteByUri u s =
     (if \<not> connected s then (Inl NotConnected, s)
      else
        let numDeletedRows = length (filter (\<lambda>r. uri r = u) (post_table s))
        in (Inr (0 < numDeletedRows),
            s\<lparr>post_table := filter (\<lambda>r. uri r \<noteq> u) (post_table s)\<rparr>))"

definition postgresql_getAlgorithmFeed ::
    "engine_sort \<Rightarrow> nat \<Rightarrow> int option \<Rightarrow> store \<Rightarrow> db_error + (post_record list \<times> int option)" where
  "postgresql_getAlgorithmFeed ord n cur s =
     (case postgresql_findMany ord \<lparr>crit_authorDid = None, crit_limit = Some n, crit_cursor = cur\<rparr> s of
        Inl e \<Rightarrow> Inl e
      | Inr posts \<Rightarrow>
          Inr (posts, if 0 < length posts then Some (indexedAt (last posts)) else None))"

definition postgresql_subscriptionState_get :: "string \<Rightarrow> store \<Rightarrow> db_error + (string \<times> int) option" where
  "postgresql_subscriptionState_get service s =
     (if \<not> connected s then Inl NotConnected
      else Inr (find (\<lambda>row. fst row = service) (sub_state_table s)))"


section \<open>MongoDB adapter (\<^verbatim>\<open>db/adapters/mongodb.ts\<close>)\<close>

text \<open>\<^verbatim>\<open>collection.deleteOne({ uri })\<close> removes the first document that matches.\<close>

fun delete_one :: "string \<Rightarrow> post list \<Rightarrow> post list" where
  "delete_one u [] = []"
| "delete_one u (d # ds) = (if uri d = u then ds else d # delete_one u ds)"

definition mongodb_doc_to_record :: "post \<Rightarrow> post_record" where
  "mongodb_doc_to_record row =
     \<lparr>uri = uri row, cid = cid row,
      replyParent = replyParent row, replyRoot = replyRoot row,
      authorDid = authorDid row, recordJson = recordJson row, indexedAt = indexedAt row,
      post_id = uri row\<rparr>"

definition mongodb_create :: "string \<Rightarrow> post \<Rightarrow> store \<Rightarrow> (db_error + post_record) \<times> store" where
  "mongodb_create randomUUID p s =
     (if \<not> connected s then (Inl NotConnected, s)
      else
        let newPost = \<lparr>uri = uri p, cid = cid p, replyParent = replyParent p,
                       replyRoot = replyRoot p, authorDid = authorDid p,
                       recordJson = recordJson p, indexedAt = indexedAt p,
                       post_id = randomUUID\<rparr>;
            document = \<lparr>uri = uri newPost, cid = cid newPost,
                        replyParent = replyParent newPost,
                        replyRoot = replyRoot newPost,
                        authorDid = authorDid newPost, recordJson = recordJson newPost,
                        indexedAt = indexedAt newPost\<rparr>
        in if uri document \<in> set (map uri (post_table s)) then (Inl UniqueViolation, s)
           else (Inr newPost, s\<lparr>post_table := post_table s @ [document]\<rparr>))"

definition mongodb_findMany :: "engine_sort \<Rightarrow> find_criteria \<Rightarrow> store \<Rightarrow> db_error + post_record list" where
  "mongodb_findMany ord criteria s =
     (if \<not> connected s then Inl NotConnected
      else
        let q1 = (case crit_authorDid criteria of
                    None \<Rightarrow> post_table s
                  | Some d \<Rightarrow> if d = [] then post_table s
                             else filter (\<lambda>r. authorDid r = d) (post_table s));
            q2 = (case crit_cursor criteria of
                    None \<Rightarrow> q1
                  | Some c \<Rightarrow> filter (\<lambda>r. indexedAt r < c) q1);
            sorted_rows = ord q2;
            rows = (case crit_limit criteria of
                      None \<Rightarrow> sorted_rows
                    | Some n \<Rightarrow> if n = 0 then sorted_rows else take n sorted_rows)
        in Inr (map mongodb_doc_to_record rows))"


definition mongodb_deleteByUri :: "string \<Rightarrow> store \<Rightarrow> (db_error + bool) \<times> store" where
  "mongodb_deleteByUri u s =
     (if \<not> connected s then (Inl NotConnected, s)
      else
        let deletedCount = length (post_table s) - length (delete_one u (post_table s))
        in (Inr (0 < deletedCount),
            s\<lparr>post_table := delete_one u (post_table s)\<rparr>))"

definition mongodb_getAlgorithmFeed ::
    "engine_sort \<Rightarrow> nat \<Rightarrow> int option \<Rightarrow> store \<Rightarrow> db_error + (post_record list \<times> int option)" where
  "mongodb_getAlgorithmFeed ord n cur s =
     (case mongodb_findMany ord \<lparr>crit_authorDid = None, crit_limit = Some n, crit_cursor = cur\<rparr> s of
        Inl e \<Rightarrow> Inl e
      | Inr posts \<Rightarrow>
          Inr (posts, if 0 < length posts then Some (indexedAt (last posts)) else None))"

definition mongodb_subscriptionState_get :: "string \<Rightarrow> store \<Rightarrow> db_error + (string \<times> int) option" where
  "mongodb_subscriptionState_get service s =
     (if \<not> connected s then Inl NotConnected
      else Inr (find (\<lambda>row. fst row = service) (sub_state_table s)))"


section \<open>The adapter interface (\<^verbatim>\<open>db/interfaces.ts\<close>, \<^verbatim>\<open>db/factory.ts\<close>)\<close>

text \<open>
  \<^verbatim>\<open>createDatabaseAdapter\<close> constructs one of the three classes from \<^verbatim>\<open>config.type\<close>; a
  caller holds a \<^verbatim>\<open>DatabaseAdapter & FeedDatabase\<close> and its calls dispatch on the class.
\<close>

datatype adapter = SQLiteAdapter store | PostgreSQLAdapter store | MongoDBAdapter store

fun adapter_store :: "adapter \<Rightarrow> store" where
  "adapter_store (SQLiteAdapter s) = s"
| "adapter_store (PostgreSQLAdapter s) = s"
| "adapter_store (MongoDBAdapter s) = s"

fun posts_create :: "string \<Rightarrow> post \<Rightarrow> adapter \<Rightarrow> (db_error + post_record) \<times> adapter" where
  "posts_create u p (SQLiteAdapter s) = apsnd SQLiteAdapter (sqlite_create u p s)"
| "posts_create u p (PostgreSQLAdapter s) = apsnd PostgreSQLAdapter (postgresql_create u p s)"
| "posts_create u p (MongoDBAdapter s) = apsnd MongoDBAdapter (mongodb_create u p s)"

fun posts_deleteByUri :: "string \<Rightarrow> adapter \<Rightarrow> (db_error + bool) \<times> adapter" where
  "posts_deleteByUri u (SQLiteAdapter s) = apsnd SQLiteAdapter (sqlite_deleteByUri u s)"
| "posts_deleteByUri u (PostgreSQLAdapter s) = apsnd PostgreSQLAdapter (postgresql_deleteByUri u s)"
| "posts_deleteByUri u (MongoDBAdapter s) = apsnd MongoDBAdapter (mongodb_deleteByUri u s)"



fun posts_getAlgorithmFeed ::
    "engine_sort \<Rightarrow> nat \<Rightarrow> int option \<Rightarrow> adapter \<Rightarrow> db_error + (post_record list \<times> int option)" where
  "posts_getAlgorithmFeed ord n cur (SQLiteAdapter s) = sqlite_getAlgorithmFeed ord n cur s"
| "posts_getAlgorithmFeed ord n cur (PostgreSQLAdapter s) = postgresql_getAlgorithmFeed ord n cur s"
| "posts_getAlgorithmFeed ord n cur (MongoDBAdapter s) = mongodb_getAlgorithmFeed ord n cur s"

fun subscriptionState_get :: "string \<Rightarrow> adapter \<Rightarrow> db_error + (string \<times> int) option" where
  "subscriptionState_get service (SQLiteAdapter s) = sqlite_subscriptionState_get service s"
| "subscriptionState_get service (PostgreSQLAdapter s) = postgresql_subscriptionState_get service s"
| "subscriptionState_get service (MongoDBAdapter s) = mongodb_subscriptionState_get service s"


section \<open>Ingestion pipeline (\<^verbatim>\<open>subscription.ts\<close>, \<^verbatim>\<open>FirehoseSubscription.handleEvent\<close>)\<close>

text \<open>
  One element of \<^verbatim>\<open>ops.posts.creates\<close>, as far as \<^verbatim>\<open>handleEvent\<close> reads it:
  \<^verbatim>\<open>create.uri\<close>, \<^verbatim>\<open>create.cid\<close>, \<^verbatim>\<open>create.author\<close>, \<^verbatim>\<open>create.record.reply?.parent?.uri\<close>,
  \<^verbatim>\<open>create.record.reply?.root?.uri\<close> and \<^verbatim>\<open>JSON.stringify(create.record)\<close>.
  \<^verbatim>\<open>getOpsByType\<close> is not part of the sources at hand: a commit event carries the
  operations it would return, the deletes as the list of their uris.
\<close>

record create_op =
  create_uri :: string
  create_cid :: string
  create_author :: string
  reply_parent_uri :: "string option"
  reply_root_uri :: "string option"
  record_stringified :: string

record operations =
  deletes :: "string list"
  creates :: "create_op list"

datatype repo_event = Commit operations | NotCommit

text \<open>
  The subscription owns the legacy Kysely handle \<^verbatim>\<open>this.db\<close> (its \<^verbatim>\<open>post\<close> table) and,
  optionally, an adapter.
\<close>

record subscription =
  db :: "post list"
  dbAdapter :: "adapter option"

text \<open>What the two \<^verbatim>\<open>catch\<close> blocks print with \<^verbatim>\<open>console.error\<close>.\<close>

datatype log_line = FailedDelete string db_error | FailedCreate string db_error

text \<open>
  The callback of \<^verbatim>\<open>ops.posts.creates.map\<close>; \<open>now\<close> is what \<^verbatim>\<open>new Date()\<close> returns in
  this call.
\<close>

definition to_post :: "int \<Rightarrow> create_op \<Rightarrow> post" where
  "to_post now create =
     \<lparr>uri = create_uri create, cid = create_cid create,
      replyParent = or_absent (reply_parent_uri create),
      replyRoot = or_absent (reply_root_uri create),
      authorDid = create_author create, recordJson = record_stringified create,
      indexedAt = now\<rparr>"

text \<open>\<open>clock i\<close> is the reading of the clock in call number \<open>i\<close> of the callback.\<close>

fun postsToCreate :: "(nat \<Rightarrow> int) \<Rightarrow> nat \<Rightarrow> create_op list \<Rightarrow> post list" where
  "postsToCreate clock i [] = []"
| "postsToCreate clock i (c # cs) = to_post (clock i) c # postsToCreate clock (Suc i) cs"

text \<open>
  The two \<^verbatim>\<open>for\<close> loops of the adapter branch, each body a \<^verbatim>\<open>try\<close> whose \<^verbatim>\<open>catch\<close>
  prints the error and goes on. \<open>uuid i\<close> is what \<^verbatim>\<open>randomUUID()\<close> returns in the
  \<open>i\<close>-th call of \<^verbatim>\<open>create\<close>.
\<close>

fun delete_loop :: "string list \<Rightarrow> adapter \<Rightarrow> adapter \<times> log_line list" where
  "delete_loop [] a = (a, [])"
| "delete_loop (u # us) a =
     (case posts_deleteByUri u a of
        (Inl e, a') \<Rightarrow> (case delete_loop us a' of (a'', lg) \<Rightarrow> (a'', FailedDelete u e # lg))
      | (Inr _, a') \<Rightarrow> delete_loop us a')"

fun create_loop :: "(nat \<Rightarrow> string) \<Rightarrow> nat \<Rightarrow> post list \<Rightarrow> adapter \<Rightarrow> adapter \<times> log_line list" where
  "create_loop uuid i [] a = (a, [])"
| "create_loop uuid i (p # ps) a =
     (case posts_create (uuid i) p a of
        (Inl e, a') \<Rightarrow>
          (case create_loop uuid (Suc i) ps a' of (a'', lg) \<Rightarrow> (a'', FailedCreate (uri p) e # lg))
      | (Inr _, a') \<Rightarrow> create_loop uuid (Suc i) ps a')"

text \<open>
  The legacy branch: \<^verbatim>\<open>insertInto('post').values(legacyPosts).onConflict(oc => oc.doNothing())\<close>
  inserts the rows one after the other and skips a row whose \<^verbatim>\<open>uri\<close> is taken.
\<close>

definition legacy_row :: "post \<Rightarrow> post" where
  "legacy_row p =
     \<lparr>uri = uri p, cid = cid p, replyParent = or_absent (replyParent p),
      replyRoot = or_absent (replyRoot p), authorDid = authorDid p,
      recordJson = recordJson p, indexedAt = indexedAt p\<rparr>"

fun insert_do_nothing :: "post list \<Rightarrow> post list \<Rightarrow> post list" where
  "insert_do_nothing [] table = table"
| "insert_do_nothing (r # rs) table =
     (if uri r \<in> set (map uri table) then insert_do_nothing rs table
      else insert_do_nothing rs (table @ [r]))"

definition handleEvent ::
    "(nat \<Rightarrow> int) \<Rightarrow> (nat \<Rightarrow> string) \<Rightarrow> repo_event \<Rightarrow> subscription \<Rightarrow> subscription \<times> log_line list" where
  "handleEvent clock uuid evt sub =
     (case evt of
        NotCommit \<Rightarrow> (sub, [])
      | Commit ops \<Rightarrow>
          let to_delete = deletes ops;
              to_create = postsToCreate clock 0 (creates ops)
          in (case dbAdapter sub of
                Some a \<Rightarrow>
                  (case delete_loop to_delete a of
                     (a1, log1) \<Rightarrow>
                       (case create_loop uuid 0 to_create a1 of
                          (a2, log2) \<Rightarrow> (sub\<lparr>dbAdapter := Some a2\<rparr>, log1 @ log2)))
              | None \<Rightarrow>
                  (let t1 = (if 0 < length to_delete
                             then filter (\<lambda>r. uri r \<notin> set to_delete) (db sub) else db sub);
                       t2 = (if 0 < length to_create
                             then insert_do_nothing (map legacy_row to_create) t1 else t1)
                   in (sub\<lparr>db := t2\<rparr>, []))))"

section \<open>The \<^verbatim>\<open>whats-alf\<close> feed handler (\<^verbatim>\<open>algos/whats-alf.ts\<close>)\<close>

text \<open>
  What \<^verbatim>\<open>JSON.parse\<close> returns. The platform's parser is a parameter of the handler:
  \<open>None\<close> stands for the \<^verbatim>\<open>SyntaxError\<close> it throws. In an object the members are kept in
  the order of the text; where a key is repeated the last member is the property.
\<close>

datatype json =
  JNull | JBool bool | JNumber real | JString string | JArray "json list"
  | JObject "(string \<times> json) list"

type_synonym json_parse = "string \<Rightarrow> json option"

datatype js_error = TypeError

text \<open>\<^verbatim>\<open>record.text\<close>: reading a property of \<^verbatim>\<open>null\<close> throws; a primitive or an array has no
  property \<^verbatim>\<open>text\<close>.\<close>

fun record_text :: "json \<Rightarrow> js_error + json option" where
  "record_text JNull = Inl TypeError"
| "record_text (JObject members) = Inr (map_of (rev members) ''text'')"
| "record_text _ = Inr None"

text \<open>
  \<^verbatim>\<open>toLowerCase\<close> on the letters A to Z. No other character has a, l or f as its lower
  case, so the test for \<^verbatim>\<open>'alf'\<close> does not depend on the rest of the mapping.
\<close>

definition toLowerCase_char :: "char \<Rightarrow> char" where
  "toLowerCase_char c =
     (case map_of (zip ''ABCDEFGHIJKLMNOPQRSTUVWXYZ'' ''abcdefghijklmnopqrstuvwxyz'') c of
        None \<Rightarrow> c
      | Some l \<Rightarrow> l)"

definition toLowerCase :: "string \<Rightarrow> string" where
  "toLowerCase s = map toLowerCase_char s"

fun starts_with :: "string \<Rightarrow> string \<Rightarrow> bool" where
  "starts_with s [] = True"
| "starts_with [] (c # cs) = False"
| "starts_with (x # xs) (c # cs) = (x = c \<and> starts_with xs cs)"

fun str_includes :: "string \<Rightarrow> string \<Rightarrow> bool" where
  "str_includes [] t = starts_with [] t"
| "str_includes (x # xs) t = (starts_with (x # xs) t \<or> str_includes xs t)"

text \<open>
  \<^verbatim>\<open>record.text && record.text.toLowerCase().includes('alf')\<close>, as \<^verbatim>\<open>filter\<close> reads it (by
  truthiness). A truthy \<^verbatim>\<open>text\<close> that is not a string has no \<^verbatim>\<open>toLowerCase\<close>.
\<close>

fun text_is_alf :: "json option \<Rightarrow> js_error + bool" where
  "text_is_alf None = Inr False"
| "text_is_alf (Some JNull) = Inr False"
| "text_is_alf (Some (JBool b)) = (if b then Inl TypeError else Inr False)"
| "text_is_alf (Some (JNumber x)) = (if x = 0 then Inr False else Inl TypeError)"
| "text_is_alf (Some (JString t)) =
     (if t = [] then Inr False else Inr (str_includes (toLowerCase t) ''alf''))"
| "text_is_alf (Some (JArray _)) = Inl TypeError"
| "text_is_alf (Some (JObject _)) = Inl TypeError"

text \<open>The callback of \<^verbatim>\<open>res.filter\<close>: anything thrown inside the \<^verbatim>\<open>try\<close> gives \<^verbatim>\<open>false\<close>.\<close>

definition alf_filter :: "json_parse \<Rightarrow> post \<Rightarrow> bool" where
  "alf_filter parse row =
     (case parse (recordJson row) of
        None \<Rightarrow> False
      | Some record \<Rightarrow>
          (case record_text record of
             Inl e \<Rightarrow> False
           | Inr t \<Rightarrow> (case text_is_alf t of Inl e \<Rightarrow> False | Inr b \<Rightarrow> b)))"

text \<open>
  \<^verbatim>\<open>parseInt(params.cursor, 10)\<close>: leading white space, an optional sign, then the longest
  run of decimal digits; \<open>None\<close> stands for \<^verbatim>\<open>NaN\<close>. White space is the ASCII white
  space.
\<close>

definition is_space :: "char \<Rightarrow> bool" where
  "is_space c \<longleftrightarrow> c \<in> {CHR 0x09, CHR 0x0A, CHR 0x0B, CHR 0x0C, CHR 0x0D, CHR 0x20}"

definition is_digit :: "char \<Rightarrow> bool" where
  "is_digit c \<longleftrightarrow> c \<in> set ''0123456789''"

definition digit_value :: "char \<Rightarrow> nat" where
  "digit_value c = of_char c - 48"

definition parseInt :: "string \<Rightarrow> int option" where
  "parseInt str =
     (let trimmed = dropWhile is_space str;
          negative = (case trimmed of [] \<Rightarrow> False | c # _ \<Rightarrow> c = CHR ''-'');
          body = (case trimmed of
                    [] \<Rightarrow> []
                  | c # cs \<Rightarrow> if c = CHR ''+'' \<or> c = CHR ''-'' then cs else trimmed);
          z = takeWhile is_digit body
      in if z = [] then None
         else let math_int = int (foldl (\<lambda>n c. 10 * n + digit_value c) 0 z)
              in Some (if negative then - math_int else math_int))"

text \<open>\<^verbatim>\<open>Number.prototype.toString(10)\<close> of an integer.\<close>

fun digit_string :: "nat \<Rightarrow> string" where
  "digit_string n =
     (if n < 10 then [''0123456789'' ! n]
      else digit_string (n div 10) @ [''0123456789'' ! (n mod 10)])"

definition number_toString :: "int \<Rightarrow> string" where
  "number_toString i = (if i < 0 then CHR ''-'' # digit_string (nat (- i)) else digit_string (nat i))"

text \<open>
  \<^verbatim>\<open>new Date(n).toISOString()\<close> throws a \<^verbatim>\<open>RangeError\<close> when \<^verbatim>\<open>n\<close> is \<^verbatim>\<open>NaN\<close> or lies
  outside the range of time values; the handler logs the error and throws it again.
\<close>

datatype handler_error = RangeError

definition cursor_time :: "string \<Rightarrow> handler_error + int" where
  "cursor_time c =
     (case parseInt c of
        None \<Rightarrow> Inl RangeError
      | Some n \<Rightarrow> if \<bar>n\<bar> \<le> 8640000000000000 then Inr n else Inl RangeError)"

record query_params =
  param_limit :: nat
  param_cursor :: "string option"

record algo_output =
  out_cursor :: "string option"
  out_feed :: "string list"

text \<open>
  The engine behind \<^verbatim>\<open>ctx.db\<close> evaluates
  \<^verbatim>\<open>.orderBy('indexedAt', 'desc').orderBy('cid', 'desc')\<close>; \<^verbatim>\<open>cid\<close> is compared as a string.
  As in the adapters, \<^verbatim>\<open>indexedAt\<close> and the bound \<^verbatim>\<open>timeStr\<close> are ISO strings in the source
  and time values here.
\<close>

definition order_by_indexedAt_cid_desc :: "engine_sort \<Rightarrow> bool" where
  "order_by_indexedAt_cid_desc ord \<longleftrightarrow>
     (\<forall>rows. mset (ord rows) = mset rows \<and>
        sorted_wrt (\<lambda>a b. indexedAt b < indexedAt a \<or> (indexedAt b = indexedAt a \<and> cid b \<le> cid a))
          (ord rows))"

definition by_indexedAt_cid_desc :: engine_sort where
  "by_indexedAt_cid_desc rows = rev (sort_key (\<lambda>r. (indexedAt r, cid r)) rows)"

definition handler ::
    "json_parse \<Rightarrow> engine_sort \<Rightarrow> post list \<Rightarrow> query_params \<Rightarrow> handler_error + algo_output" where
  "handler parse ord post_rows params =
     (case (case param_cursor params of
              None \<Rightarrow> Inr None
            | Some c \<Rightarrow> if c = [] then Inr None else map_sum (\<lambda>e. e) Some (cursor_time c)) of
        Inl e \<Rightarrow> Inl e
      | Inr timeStr \<Rightarrow>
          (let builder = (case timeStr of
                            None \<Rightarrow> post_rows
                          | Some t \<Rightarrow> filter (\<lambda>r. indexedAt r < t) post_rows);
               fetchLimit = min (param_limit params * 3) 300;
               res = take fetchLimit (ord builder);
               alfPosts = filter (alf_filter parse) res;
               limitedPosts = take (param_limit params) alfPosts;
               feed = map uri limitedPosts;
               cursor = (case rev limitedPosts of
                           [] \<Rightarrow> None
                         | l # _ \<Rightarrow> Some (number_toString (indexedAt l)))
           in Inr \<lparr>out_cursor = cursor, out_feed = feed\<rparr>))"

text \<open>The three payloads of the filter example, and a parser that knows just these.\<close>

definition payload_alf :: string where
  \<open>payload_alf = ''{"text":"I love ALF"}''\<close>

definition payload_unrelated :: string where
  \<open>payload_unrelated = ''{"text":"unrelated"}''\<close>

definition payload_malformed :: string where
  \<open>payload_malformed = ''{"text":"not json''\<close>

definition sample_parse :: json_parse where
  "sample_parse s =
     (if s = payload_alf then Some (JObject [(''text'', JString ''I love ALF'')])
      else if s = payload_unrelated then Some (JObject [(''text'', JString ''unrelated'')])
      else None)"

text \<open>Three rows with these payloads; the malformed one is the oldest.\<close>

definition alf_row :: post where
  "alf_row =
     \<lparr>uri = ''at://did:example:alice/app.bsky.feed.post/1'', cid = ''bafyreic1'',
      replyParent = None, replyRoot = None, authorDid = ''did:example:alice'',
      recordJson = payload_alf, indexedAt = 1672531320000\<rparr>"

definition unrelated_row :: post where
  "unrelated_row =
     \<lparr>uri = ''at://did:example:alice/app.bsky.feed.post/2'', cid = ''bafyreic2'',
      replyParent = None, replyRoot = None, authorDid = ''did:example:alice'',
      recordJson = payload_unrelated, indexedAt = 1672531260000\<rparr>"

definition malformed_row :: post where
  "malformed_row =
     \<lparr>uri = ''at://did:example:alice/app.bsky.feed.post/3'', cid = ''bafyreic3'',
      replyParent = None, replyRoot = None, authorDid = ''did:example:alice'',
      recordJson = payload_malformed, indexedAt = 1672531200000\<rparr>"

definition three_rows :: "post list" where
  "three_rows = [malformed_row, unrelated_row, alf_row]"

section \<open>Valid posts\<close>

text \<open>
  The reply fields of a post refer to other posts by their uri. A valid post has, in each of
  them, no reference or a reference that is not the empty string. The empty string is no
  uri (the matcher \<^verbatim>\<open>toBeValidAtUri\<close> of the tests wants \<^verbatim>\<open>at://\<close> in front), and
  \<^verbatim>\<open>handleEvent\<close> hands no such post to an adapter: it maps an empty reference to
  \<^verbatim>\<open>undefined\<close>.
\<close>

definition valid_post :: "post \<Rightarrow> bool" where
  "valid_post p \<longleftrightarrow> replyParent p \<noteq> Some [] \<and> replyRoot p \<noteq> Some []"

text \<open>A post and a connected store without rows, for the examples.\<close>

definition alice_post :: post where
  "alice_post =
     \<lparr>uri = ''at://did:example:alice/app.bsky.feed.post/1'', cid = ''bafyreic1'',
      replyParent = None, replyRoot = None, authorDid = ''did:example:alice'',
      recordJson = ''{}'', indexedAt = 1672531200000\<rparr>"

definition empty_store :: store where
  "empty_store = \<lparr>connected = True, post_table = [], sub_state_table = []\<rparr>"

section \<open>Sequences of adapter operations\<close>








text \<open>Ten posts, newer ones first, and a second post that shares \<^verbatim>\<open>indexedAt\<close> with
  \<open>alice_post\<close>.\<close>

definition numbered_post :: "nat \<Rightarrow> post" where
  "numbered_post n =
     \<lparr>uri = ''at://did:example:alice/app.bsky.feed.post/'' @ digit_string n, cid = ''bafyreic'',
      replyParent = None, replyRoot = None, authorDid = ''did:example:alice'',
      recordJson = ''{}'', indexedAt = 1672531200000 - 1000 * int n\<rparr>"

definition bob_post :: post where
  "bob_post =
     \<lparr>uri = ''at://did:example:bob/app.bsky.feed.post/2'', cid = ''bafyreic2'',
      replyParent = None, replyRoot = None, authorDid = ''did:example:bob'',
      recordJson = ''{}'', indexedAt = 1672531200000\<rparr>"



definition first_page_of_one :: find_criteria where
  "first_page_of_one = \<lparr>crit_authorDid = None, crit_limit = Some 1, crit_cursor = None\<rparr>"



definition tie_store :: store where
  "tie_store = empty_store\<lparr>post_table := [alice_post, bob_post]\<rparr>"

definition ten_store :: store where
  "ten_store = empty_store\<lparr>post_table := rev (map numbered_post [1, 2, 3, 4, 5, 6, 7, 8, 9, 10])\<rparr>"


section \<open>The table after a delivery\<close>

text \<open>
  Notions to state what \<^verbatim>\<open>handleEvent\<close> does to a store: the adapter of the same class on
  another store, the post table of an adapter, and the adapter with another post table.
\<close>

fun with_store :: "adapter \<Rightarrow> store \<Rightarrow> adapter" where
  "with_store (SQLiteAdapter _) s = SQLiteAdapter s"
| "with_store (PostgreSQLAdapter _) s = PostgreSQLAdapter s"
| "with_store (MongoDBAdapter _) s = MongoDBAdapter s"

definition posts_of :: "adapter \<Rightarrow> post list" where
  "posts_of a = post_table (adapter_store a)"

definition set_table :: "post list \<Rightarrow> adapter \<Rightarrow> adapter" where
  "set_table t a = with_store a ((adapter_store a)\<lparr>post_table := t\<rparr>)"

text \<open>
  The table after a batch: the rows whose uri is among the deletes are gone, then the posts
  to create are appended, each unless its uri is taken. \<open>duplicate_log\<close> lists the posts
  that find their uri taken.
\<close>

definition delivered :: "string list \<Rightarrow> post list \<Rightarrow> post list \<Rightarrow> post list" where
  "delivered ds ps t = insert_do_nothing ps (filter (\<lambda>r. uri r \<notin> set ds) t)"

fun duplicate_log :: "post list \<Rightarrow> post list \<Rightarrow> log_line list" where
  "duplicate_log [] table = []"
| "duplicate_log (p # ps) table =
     (if uri p \<in> set (map uri table) then FailedCreate (uri p) UniqueViolation # duplicate_log ps table
      else duplicate_log ps (table @ [p]))"

text \<open>No uri occurs twice, in the legacy table and in the adapter's table.\<close>

definition uris_unique :: "subscription \<Rightarrow> bool" where
  "uris_unique sub \<longleftrightarrow>
     distinct (map uri (db sub)) \<and>
     (case dbAdapter sub of None \<Rightarrow> True | Some a \<Rightarrow> distinct (map uri (posts_of a)))"

text \<open>Create operations, clocks, batches and subscriptions for the examples.\<close>

definition alice_create :: create_op where
  "alice_create =
     \<lparr>create_uri = ''at://did:example:alice/app.bsky.feed.post/1'', create_cid = ''bafyreic1'',
      create_author = ''did:example:alice'', reply_parent_uri = None, reply_root_uri = None,
      record_stringified = ''{}''\<rparr>"


definition first_clock :: "nat \<Rightarrow> int" where
  "first_clock i = 1672531200000"

definition second_clock :: "nat \<Rightarrow> int" where
  "second_clock i = 1672531260000"

definition fixed_uuid :: "nat \<Rightarrow> string" where
  "fixed_uuid i = ''0b0a3a0e-53a3-4a5a-9c5e-2f1f6f1f3c11''"

definition replace_alice :: operations where
  "replace_alice = \<lparr>deletes = [''at://did:example:alice/app.bsky.feed.post/1''], creates = [alice_create]\<rparr>"

definition delete_bob_create_alice :: operations where
  "delete_bob_create_alice =
     \<lparr>deletes = [''at://did:example:bob/app.bsky.feed.post/2''], creates = [alice_create, alice_create]\<rparr>"


definition sqlite_subscription :: subscription where
  "sqlite_subscription = \<lparr>db = [], dbAdapter = Some (SQLiteAdapter empty_store)\<rparr>"


section \<open>Facts about the tables\<close>

lemma or_absent_id: "x \<noteq> Some [] \<Longrightarrow> or_absent x = x"
  by (cases x) auto



lemma filter_uri_absent:
  "u \<notin> uri ` set rows \<Longrightarrow> filter (\<lambda>x. uri x = u) rows = []"
  by (induction rows) auto

section \<open>Round trip of a created post\<close>






section \<open>Uniqueness of the uri\<close>

lemma sqlite_create_unique:
  assumes "sqlite_create id1 p s = (Inr created, s')" and "uri p2 = uri p"
  shows "sqlite_create id2 p2 s' = (Inl UniqueViolation, s') \<and>
         length (filter (\<lambda>r. uri r = uri p) (post_table s')) = 1"
  using assms
  by (auto simp: sqlite_create_def Let_def filter_uri_absent split: if_splits)

lemma postgresql_create_unique:
  assumes "postgresql_create id1 p s = (Inr created, s')" and "uri p2 = uri p"
  shows "postgresql_create id2 p2 s' = (Inl UniqueViolation, s') \<and>
         length (filter (\<lambda>r. uri r = uri p) (post_table s')) = 1"
  using assms
  by (auto simp: postgresql_create_def Let_def filter_uri_absent split: if_splits)

lemma mongodb_create_unique:
  assumes "mongodb_create id1 p s = (Inr created, s')" and "uri p2 = uri p"
  shows "mongodb_create id2 p2 s' = (Inl UniqueViolation, s') \<and>
         length (filter (\<lambda>r. uri r = uri p) (post_table s')) = 1"
  using assms
  by (auto simp: mongodb_create_def Let_def filter_uri_absent split: if_splits)

text \<open>
  Claim C5 (uniqueness). For every adapter, after \<^verbatim>\<open>create(p)\<close> has succeeded, a second
  \<^verbatim>\<open>create\<close> of a post with the same uri fails with the key violation of the engine, which
  is not the error of a missing connection; it leaves the store as it was, and the store
  holds exactly one row with that uri.
\<close>

theorem second_create_same_uri_rejected:
  assumes "posts_create id1 p a = (Inr created, a')" and "uri p2 = uri p"
  shows "posts_create id2 p2 a' = (Inl UniqueViolation, a') \<and>
         UniqueViolation \<noteq> NotConnected \<and>
         length (filter (\<lambda>r. uri r = uri p) (post_table (adapter_store a'))) = 1"
proof (cases a)
  case (SQLiteAdapter s)
  with assms(1) obtain s' where
    "sqlite_create id1 p s = (Inr created, s')" "a' = SQLiteAdapter s'"
    by (cases "sqlite_create id1 p s") auto
  with sqlite_create_unique[OF _ assms(2)] show ?thesis by fastforce
next
  case (PostgreSQLAdapter s)
  with assms(1) obtain s' where
    "postgresql_create id1 p s = (Inr created, s')" "a' = PostgreSQLAdapter s'"
    by (cases "postgresql_create id1 p s") auto
  with postgresql_create_unique[OF _ assms(2)] show ?thesis by fastforce
next
  case (MongoDBAdapter s)
  with assms(1) obtain s' where
    "mongodb_create id1 p s = (Inr created, s')" "a' = MongoDBAdapter s'"
    by (cases "mongodb_create id1 p s") auto
  with mongodb_create_unique[OF _ assms(2)] show ?thesis by fastforce
qed

theorem second_create_same_uri_rejected_witness:
  "posts_create ''id-1'' alice_post (MongoDBAdapter empty_store) =
     (Inr (post.extend alice_post (post_record.fields ''id-1'')),
      MongoDBAdapter (empty_store\<lparr>post_table := [alice_post]\<rparr>)) \<and>
   posts_create ''id-2'' (alice_post\<lparr>cid := ''bafyreic2''\<rparr>)
       (MongoDBAdapter (empty_store\<lparr>post_table := [alice_post]\<rparr>)) =
     (Inl UniqueViolation, MongoDBAdapter (empty_store\<lparr>post_table := [alice_post]\<rparr>)) \<and>
   length (filter (\<lambda>r. uri r = uri alice_post)
     (post_table (adapter_store (MongoDBAdapter (empty_store\<lparr>post_table := [alice_post]\<rparr>))))) = 1"
proof -
  have c: "posts_create ''id-1'' alice_post (MongoDBAdapter empty_store) =
     (Inr (post.extend alice_post (post_record.fields ''id-1'')),
      MongoDBAdapter (empty_store\<lparr>post_table := [alice_post]\<rparr>))"
    by (simp add: mongodb_create_def empty_store_def alice_post_def post.extend_def
        post_record.fields_def Let_def)
  have u: "uri (alice_post\<lparr>cid := ''bafyreic2''\<rparr>) = uri alice_post"
    by simp
  from second_create_same_uri_rejected[OF c u, of "''id-2''"] c show ?thesis by blast
qed

section \<open>The id of a record\<close>






section \<open>The engine's sort\<close>

lemma desc_sorted_unique:
  assumes "sorted_wrt (\<lambda>a b. indexedAt b \<le> indexedAt a) ys"
      and "sorted_wrt (\<lambda>a b. indexedAt b < indexedAt a) ps"
      and "mset ys = mset ps"
  shows "ys = ps"
proof -
  have dps: "distinct (map indexedAt ps)"
    using assms(2) by (induction ps) (auto simp: less_le)
  have m: "mset (map indexedAt ys) = mset (map indexedAt ps)"
    using assms(3) by (metis mset_map)
  then have dys: "distinct (map indexedAt ys)"
    using dps by (metis mset_eq_imp_distinct_iff)
  have s1: "sorted (rev (map indexedAt ys))"
    using assms(1) by (simp add: sorted_wrt_rev sorted_wrt_map flip: rev_map)
  have s2: "sorted (rev (map indexedAt ps))"
    using assms(2) by (auto simp: sorted_wrt_rev sorted_wrt_map less_imp_le simp flip: rev_map
        intro: sorted_wrt_mono_rel[rotated])
  have "set (rev (map indexedAt ys)) = set (rev (map indexedAt ps))"
    using m by (metis set_rev mset_eq_setD)
  with s1 s2 dys dps have "rev (map indexedAt ys) = rev (map indexedAt ps)"
    by (intro sorted_distinct_set_unique) auto
  then have e: "map indexedAt ys = map indexedAt ps" by simp
  have "set ys = set ps" using assms(3) by (metis mset_eq_setD)
  moreover have "inj_on indexedAt (set ps)" using dps by (simp add: distinct_map)
  ultimately have "inj_on indexedAt (set ys \<union> set ps)" by simp
  with e show ?thesis by (simp add: inj_on_map_eq_map)
qed

lemma engine_sort_strict:
  assumes "order_by_indexedAt_desc ord"
      and "sorted_wrt (\<lambda>a b. indexedAt b < indexedAt a) ps"
      and "mset rows = mset ps"
  shows "ord rows = ps"
  using assms desc_sorted_unique[of "ord rows" ps]
  by (simp add: order_by_indexedAt_desc_def)

lemma oldest_first_ok: "order_by_indexedAt_desc oldest_first"
  unfolding order_by_indexedAt_desc_def oldest_first_def
proof (intro allI conjI)
  fix rows :: "post list"
  show "mset (sort_key (\<lambda>r. - indexedAt r) rows) = mset rows" by simp
  have "sorted (map (\<lambda>r. - indexedAt r) (sort_key (\<lambda>r. - indexedAt r) rows))"
    by (rule sorted_sort_key)
  then show "sorted_wrt (\<lambda>a b. indexedAt b \<le> indexedAt a) (sort_key (\<lambda>r. - indexedAt r) rows)"
    by (simp add: sorted_wrt_map)
qed

lemma newest_first_ok: "order_by_indexedAt_desc newest_first"
  unfolding order_by_indexedAt_desc_def newest_first_def
proof (intro allI conjI)
  fix rows :: "post list"
  show "mset (sort_key (\<lambda>r. - indexedAt r) (rev rows)) = mset rows" by simp
  have "sorted (map (\<lambda>r. - indexedAt r) (sort_key (\<lambda>r. - indexedAt r) (rev rows)))"
    by (rule sorted_sort_key)
  then show "sorted_wrt (\<lambda>a b. indexedAt b \<le> indexedAt a) (sort_key (\<lambda>r. - indexedAt r) (rev rows))"
    by (simp add: sorted_wrt_map)
qed

lemma strict_filter:
  "sorted_wrt (\<lambda>a b. indexedAt b < indexedAt a) ps \<Longrightarrow>
   sorted_wrt (\<lambda>a b. indexedAt b < indexedAt a) (filter P ps)"
  by (rule sorted_wrt_filter)

lemma engine_sort_filter_strict:
  assumes "order_by_indexedAt_desc ord"
      and "sorted_wrt (\<lambda>a b. indexedAt b < indexedAt a) ps"
      and "mset rows = mset ps"
  shows "ord (filter P rows) = filter P ps"
proof -
  have "mset (filter P rows) = mset (filter P ps)"
    using assms(3) by (metis mset_filter)
  with engine_sort_strict[OF assms(1) strict_filter[OF assms(2)]] show ?thesis by blast
qed

lemma sqlite_findMany_strict:
  assumes "order_by_indexedAt_desc ord" and "connected s"
      and "sorted_wrt (\<lambda>a b. indexedAt b < indexedAt a) ps"
      and "mset (post_table s) = mset ps"
  shows "sqlite_findMany ord \<lparr>crit_authorDid = None, crit_limit = Some (Suc k), crit_cursor = cur\<rparr> s =
    Inr (map sqlite_row_to_record
      (take (Suc k) (case cur of None \<Rightarrow> ps | Some c \<Rightarrow> filter (\<lambda>r. indexedAt r < c) ps)))"
  using assms engine_sort_strict[OF assms(1,3,4)] engine_sort_filter_strict[OF assms(1,3,4)]
  by (simp add: sqlite_findMany_def Let_def split: option.splits)

lemma postgresql_findMany_strict:
  assumes "order_by_indexedAt_desc ord" and "connected s"
      and "sorted_wrt (\<lambda>a b. indexedAt b < indexedAt a) ps"
      and "mset (post_table s) = mset ps"
  shows "postgresql_findMany ord \<lparr>crit_authorDid = None, crit_limit = Some (Suc k), crit_cursor = cur\<rparr> s =
    Inr (map postgresql_row_to_record
      (take (Suc k) (case cur of None \<Rightarrow> ps | Some c \<Rightarrow> filter (\<lambda>r. indexedAt r < c) ps)))"
  using assms engine_sort_strict[OF assms(1,3,4)] engine_sort_filter_strict[OF assms(1,3,4)]
  by (simp add: postgresql_findMany_def Let_def split: option.splits)

lemma mongodb_findMany_strict:
  assumes "order_by_indexedAt_desc ord" and "connected s"
      and "sorted_wrt (\<lambda>a b. indexedAt b < indexedAt a) ps"
      and "mset (post_table s) = mset ps"
  shows "mongodb_findMany ord \<lparr>crit_authorDid = None, crit_limit = Some (Suc k), crit_cursor = cur\<rparr> s =
    Inr (map mongodb_doc_to_record
      (take (Suc k) (case cur of None \<Rightarrow> ps | Some c \<Rightarrow> filter (\<lambda>r. indexedAt r < c) ps)))"
  using assms engine_sort_strict[OF assms(1,3,4)] engine_sort_filter_strict[OF assms(1,3,4)]
  by (simp add: mongodb_findMany_def Let_def split: option.splits)

lemma indexedAt_sqlite_row_to_record [simp]: "indexedAt (sqlite_row_to_record r) = indexedAt r"
  by (simp add: sqlite_row_to_record_def)
lemma indexedAt_postgresql_row_to_record [simp]: "indexedAt (postgresql_row_to_record r) = indexedAt r"
  by (simp add: postgresql_row_to_record_def)
lemma indexedAt_mongodb_doc_to_record [simp]: "indexedAt (mongodb_doc_to_record r) = indexedAt r"
  by (simp add: mongodb_doc_to_record_def)

lemma disjoint_by_indexedAt:
  assumes "\<And>x y. x \<in> set xs \<Longrightarrow> y \<in> set ys \<Longrightarrow> indexedAt y < indexedAt x"
      and "\<And>r. indexedAt (f r) = indexedAt r"
  shows "set (map f xs) \<inter> set (map f ys) = {}"
proof -
  { fix x y assume "x \<in> set xs" "y \<in> set ys" "f x = f y"
    then have "indexedAt x = indexedAt y" using assms(2) by metis
    with assms(1)[OF \<open>x \<in> set xs\<close> \<open>y \<in> set ys\<close>] have False by simp }
  then show ?thesis by auto
qed


section \<open>Pagination\<close>

text \<open>
  Claim C3 (pagination with an exclusive cursor). A connected store holds ten posts
  \<open>p1\<close>, ..., \<open>p10\<close> (in any order of insertion) whose \<^verbatim>\<open>indexedAt\<close> strictly
  decreases from \<open>p1\<close> to \<open>p10\<close>. Then, whatever the engine does with ties,
  \<^verbatim>\<open>findMany({limit: 4})\<close> returns the records of \<open>p1\<close>, \<open>p2\<close>, \<open>p3\<close>, \<open>p4\<close> in this order,
  \<^verbatim>\<open>findMany({limit: 4, cursor: p4.indexedAt})\<close> returns those of \<open>p5\<close>, \<open>p6\<close>, \<open>p7\<close>, \<open>p8\<close>,
  and the two pages have no record in common; for each of the three adapters.
\<close>

theorem pagination_of_ten_posts:
  assumes ord: "order_by_indexedAt_desc ord"
      and con: "connected s"
      and tab: "mset (post_table s) = mset [p1, p2, p3, p4, p5, p6, p7, p8, p9, p10]"
      and dec: "indexedAt p2 < indexedAt p1" "indexedAt p3 < indexedAt p2" "indexedAt p4 < indexedAt p3"
               "indexedAt p5 < indexedAt p4" "indexedAt p6 < indexedAt p5" "indexedAt p7 < indexedAt p6"
               "indexedAt p8 < indexedAt p7" "indexedAt p9 < indexedAt p8" "indexedAt p10 < indexedAt p9"
  shows "sqlite_findMany ord \<lparr>crit_authorDid = None, crit_limit = Some 4, crit_cursor = None\<rparr> s =
           Inr (map sqlite_row_to_record [p1, p2, p3, p4]) \<and>
         sqlite_findMany ord
             \<lparr>crit_authorDid = None, crit_limit = Some 4, crit_cursor = Some (indexedAt p4)\<rparr> s =
           Inr (map sqlite_row_to_record [p5, p6, p7, p8]) \<and>
         set (map sqlite_row_to_record [p1, p2, p3, p4]) \<inter>
           set (map sqlite_row_to_record [p5, p6, p7, p8]) = {} \<and>
         mongodb_findMany ord \<lparr>crit_authorDid = None, crit_limit = Some 4, crit_cursor = None\<rparr> s =
           Inr (map mongodb_doc_to_record [p1, p2, p3, p4]) \<and>
         mongodb_findMany ord
             \<lparr>crit_authorDid = None, crit_limit = Some 4, crit_cursor = Some (indexedAt p4)\<rparr> s =
           Inr (map mongodb_doc_to_record [p5, p6, p7, p8]) \<and>
         set (map mongodb_doc_to_record [p1, p2, p3, p4]) \<inter>
           set (map mongodb_doc_to_record [p5, p6, p7, p8]) = {} \<and>
         postgresql_findMany ord \<lparr>crit_authorDid = None, crit_limit = Some 4, crit_cursor = None\<rparr> s =
           Inr (map postgresql_row_to_record [p1, p2, p3, p4]) \<and>
         postgresql_findMany ord
             \<lparr>crit_authorDid = None, crit_limit = Some 4, crit_cursor = Some (indexedAt p4)\<rparr> s =
           Inr (map postgresql_row_to_record [p5, p6, p7, p8]) \<and>
         set (map postgresql_row_to_record [p1, p2, p3, p4]) \<inter>
           set (map postgresql_row_to_record [p5, p6, p7, p8]) = {}"
proof -
  let ?ps = "[p1, p2, p3, p4, p5, p6, p7, p8, p9, p10]"
  have strict: "sorted_wrt (\<lambda>a b. indexedAt b < indexedAt a) ?ps"
    using dec by simp
  have four: "(4::nat) = Suc 3" by simp
  have cut: "filter (\<lambda>r. indexedAt r < indexedAt p4) ?ps = [p5, p6, p7, p8, p9, p10]"
    using dec by simp
  have d: "\<And>x y. x \<in> set [p1, p2, p3, p4] \<Longrightarrow> y \<in> set [p5, p6, p7, p8] \<Longrightarrow> indexedAt y < indexedAt x"
    using dec by auto
  have s1: "sqlite_findMany ord \<lparr>crit_authorDid = None, crit_limit = Some 4, crit_cursor = None\<rparr> s =
           Inr (map sqlite_row_to_record [p1, p2, p3, p4])"
    unfolding four using sqlite_findMany_strict[OF ord con strict tab, of 3 None] by simp
  have s2: "sqlite_findMany ord
             \<lparr>crit_authorDid = None, crit_limit = Some 4, crit_cursor = Some (indexedAt p4)\<rparr> s =
           Inr (map sqlite_row_to_record [p5, p6, p7, p8])"
    unfolding four using sqlite_findMany_strict[OF ord con strict tab, of 3 "Some (indexedAt p4)"] cut
    by simp
  have s3: "set (map sqlite_row_to_record [p1, p2, p3, p4]) \<inter>
           set (map sqlite_row_to_record [p5, p6, p7, p8]) = {}"
    by (rule disjoint_by_indexedAt[OF d]) simp_all
  have m1: "mongodb_findMany ord \<lparr>crit_authorDid = None, crit_limit = Some 4, crit_cursor = None\<rparr> s =
           Inr (map mongodb_doc_to_record [p1, p2, p3, p4])"
    unfolding four using mongodb_findMany_strict[OF ord con strict tab, of 3 None] by simp
  have m2: "mongodb_findMany ord
             \<lparr>crit_authorDid = None, crit_limit = Some 4, crit_cursor = Some (indexedAt p4)\<rparr> s =
           Inr (map mongodb_doc_to_record [p5, p6, p7, p8])"
    unfolding four using mongodb_findMany_strict[OF ord con strict tab, of 3 "Some (indexedAt p4)"] cut
    by simp
  have m3: "set (map mongodb_doc_to_record [p1, p2, p3, p4]) \<inter>
           set (map mongodb_doc_to_record [p5, p6, p7, p8]) = {}"
    by (rule disjoint_by_indexedAt[OF d]) simp_all
  have g1: "postgresql_findMany ord \<lparr>crit_authorDid = None, crit_limit = Some 4, crit_cursor = None\<rparr> s =
           Inr (map postgresql_row_to_record [p1, p2, p3, p4])"
    unfolding four using postgresql_findMany_strict[OF ord con strict tab, of 3 None] by simp
  have g2: "postgresql_findMany ord
             \<lparr>crit_authorDid = None, crit_limit = Some 4, crit_cursor = Some (indexedAt p4)\<rparr> s =
           Inr (map postgresql_row_to_record [p5, p6, p7, p8])"
    unfolding four
    using postgresql_findMany_strict[OF ord con strict tab, of 3 "Some (indexedAt p4)"] cut
    by simp
  have g3: "set (map postgresql_row_to_record [p1, p2, p3, p4]) \<inter>
           set (map postgresql_row_to_record [p5, p6, p7, p8]) = {}"
    by (rule disjoint_by_indexedAt[OF d]) simp_all
  from s1 s2 s3 m1 m2 m3 g1 g2 g3 show ?thesis by blast
qed

theorem pagination_of_ten_posts_witness:
  "sqlite_findMany oldest_first \<lparr>crit_authorDid = None, crit_limit = Some 4, crit_cursor = None\<rparr>
      ten_store = Inr (map sqlite_row_to_record (map numbered_post [1, 2, 3, 4])) \<and>
   sqlite_findMany oldest_first
      \<lparr>crit_authorDid = None, crit_limit = Some 4, crit_cursor = Some (indexedAt (numbered_post 4))\<rparr>
      ten_store = Inr (map sqlite_row_to_record (map numbered_post [5, 6, 7, 8]))"
proof -
  have c: "connected ten_store" by (simp add: ten_store_def empty_store_def)
  have m: "mset (post_table ten_store) =
      mset [numbered_post 1, numbered_post 2, numbered_post 3, numbered_post 4, numbered_post 5,
            numbered_post 6, numbered_post 7, numbered_post 8, numbered_post 9, numbered_post 10]"
    by (simp add: ten_store_def)
  have d: "indexedAt (numbered_post 2) < indexedAt (numbered_post 1)"
    "indexedAt (numbered_post 3) < indexedAt (numbered_post 2)"
    "indexedAt (numbered_post 4) < indexedAt (numbered_post 3)"
    "indexedAt (numbered_post 5) < indexedAt (numbered_post 4)"
    "indexedAt (numbered_post 6) < indexedAt (numbered_post 5)"
    "indexedAt (numbered_post 7) < indexedAt (numbered_post 6)"
    "indexedAt (numbered_post 8) < indexedAt (numbered_post 7)"
    "indexedAt (numbered_post 9) < indexedAt (numbered_post 8)"
    "indexedAt (numbered_post 10) < indexedAt (numbered_post 9)"
    by (simp_all add: numbered_post_def)
  from pagination_of_ten_posts[OF oldest_first_ok c m d] show ?thesis by simp
qed



section \<open>Rows of equal \<^verbatim>\<open>indexedAt\<close>\<close>

lemma mset_two:
  assumes "mset xs = {#p, q#}"
  shows "xs = [p, q] \<or> xs = [q, p]"
proof -
  have "length xs = 2" using assms by (metis size_mset size_add_mset size_empty numeral_2_eq_2)
  then obtain a b where xs: "xs = [a, b]"
    by (metis (no_types, opaque_lifting) One_nat_def Suc_length_conv length_0_conv numeral_2_eq_2)
  with assms show ?thesis by (auto simp: add_eq_conv_ex)
qed

lemma engine_sort_Nil: "order_by_indexedAt_desc ord \<Longrightarrow> ord [] = []"
  by (metis order_by_indexedAt_desc_def mset_zero_iff)

lemma engine_sort_two:
  assumes "order_by_indexedAt_desc ord" and "mset rows = {#p, q#}"
  shows "ord rows = [p, q] \<or> ord rows = [q, p]"
  using assms mset_two[of "ord rows" p q] by (simp add: order_by_indexedAt_desc_def)

lemma filter_none_below:
  assumes "mset rows = {#p, q#}" and "indexedAt p = indexedAt q"
  shows "filter (\<lambda>r. indexedAt r < indexedAt p) rows = []"
    and "filter (\<lambda>r. indexedAt r < indexedAt q) rows = []"
  using mset_two[OF assms(1)] assms(2) by auto


text \<open>
  Claim C2, as amended. A connected store holds exactly two posts of equal \<^verbatim>\<open>indexedAt\<close>
  and different uri. Then \<^verbatim>\<open>findMany({limit: 1})\<close> returns one of the two, and
  \<^verbatim>\<open>findMany({limit: 1, cursor})\<close> with the cursor of that page, the \<^verbatim>\<open>indexedAt\<close> of the
  returned post, returns the empty page: no post comes twice, and the other post does not
  come at all. The cursor bounds \<^verbatim>\<open>indexedAt\<close> alone and the query has no second sort key.
\<close>

theorem tie_second_page_is_empty:
  assumes "order_by_indexedAt_desc ord1" and "order_by_indexedAt_desc ord2"
      and "connected s"
      and "mset (post_table s) = {#p, q#}"
      and "indexedAt p = indexedAt q" and "uri p \<noteq> uri q"
  shows "\<exists>x y. ((x = p \<and> y = q) \<or> (x = q \<and> y = p)) \<and>
      sqlite_findMany ord1 \<lparr>crit_authorDid = None, crit_limit = Some 1, crit_cursor = None\<rparr> s =
        Inr [sqlite_row_to_record x] \<and>
      sqlite_findMany ord2
        \<lparr>crit_authorDid = None, crit_limit = Some 1, crit_cursor = Some (indexedAt x)\<rparr> s = Inr [] \<and>
      sqlite_row_to_record y \<noteq> sqlite_row_to_record x \<and>
      postgresql_findMany ord1 \<lparr>crit_authorDid = None, crit_limit = Some 1, crit_cursor = None\<rparr> s =
        Inr [postgresql_row_to_record x] \<and>
      postgresql_findMany ord2
        \<lparr>crit_authorDid = None, crit_limit = Some 1, crit_cursor = Some (indexedAt x)\<rparr> s = Inr [] \<and>
      postgresql_row_to_record y \<noteq> postgresql_row_to_record x"
proof -
  have ne: "sqlite_row_to_record q \<noteq> sqlite_row_to_record p"
           "sqlite_row_to_record p \<noteq> sqlite_row_to_record q"
           "postgresql_row_to_record q \<noteq> postgresql_row_to_record p"
           "postgresql_row_to_record p \<noteq> postgresql_row_to_record q"
    using assms(6) by (auto simp: sqlite_row_to_record_def postgresql_row_to_record_def)
  have e: "ord2 [] = []" by (rule engine_sort_Nil[OF assms(2)])
  from engine_sort_two[OF assms(1,4)] show ?thesis
  proof
    assume o: "ord1 (post_table s) = [p, q]"
    show ?thesis
      apply (rule exI[of _ p], rule exI[of _ q])
      using o e ne assms(3) filter_none_below[OF assms(4,5)]
      by (simp add: sqlite_findMany_def postgresql_findMany_def Let_def)
  next
    assume o: "ord1 (post_table s) = [q, p]"
    show ?thesis
      apply (rule exI[of _ q], rule exI[of _ p])
      using o e ne assms(3) filter_none_below[OF assms(4,5)]
      by (simp add: sqlite_findMany_def postgresql_findMany_def Let_def)
  qed
qed

theorem tie_second_page_is_empty_witness:
  "\<exists>x y. ((x = alice_post \<and> y = bob_post) \<or> (x = bob_post \<and> y = alice_post)) \<and>
      sqlite_findMany oldest_first first_page_of_one tie_store = Inr [sqlite_row_to_record x] \<and>
      sqlite_findMany newest_first
        \<lparr>crit_authorDid = None, crit_limit = Some 1, crit_cursor = Some (indexedAt x)\<rparr> tie_store =
        Inr [] \<and>
      sqlite_row_to_record y \<noteq> sqlite_row_to_record x"
proof -
  have c: "connected tie_store" by (simp add: tie_store_def empty_store_def)
  have m: "mset (post_table tie_store) = {#alice_post, bob_post#}"
    by (simp add: tie_store_def)
  have e: "indexedAt alice_post = indexedAt bob_post" by (simp add: alice_post_def bob_post_def)
  have u: "uri alice_post \<noteq> uri bob_post" by (simp add: alice_post_def bob_post_def)
  from tie_second_page_is_empty[OF oldest_first_ok newest_first_ok c m e u]
  show ?thesis unfolding first_page_of_one_def by blast
qed


text \<open>
  Claim C2 as stated fails. The store holds \<open>alice_post\<close> and \<open>bob_post\<close>, of equal
  \<^verbatim>\<open>indexedAt\<close>. With an engine that puts the older row first, the first page is
  \<open>alice_post\<close> and the page after its cursor is empty; with an engine that puts the newer
  row first, the first page is \<open>bob_post\<close> and the page after its cursor is empty. Either
  way one of the two posts is in no page.
\<close>

theorem tie_skips_other_post_counterexample:
  "sqlite_findMany oldest_first first_page_of_one tie_store = Inr [sqlite_row_to_record alice_post] \<and>
   sqlite_findMany oldest_first
     \<lparr>crit_authorDid = None, crit_limit = Some 1, crit_cursor = Some (indexedAt alice_post)\<rparr>
     tie_store = Inr [] \<and>
   sqlite_findMany newest_first first_page_of_one tie_store = Inr [sqlite_row_to_record bob_post] \<and>
   sqlite_findMany newest_first
     \<lparr>crit_authorDid = None, crit_limit = Some 1, crit_cursor = Some (indexedAt bob_post)\<rparr>
     tie_store = Inr [] \<and>
   postgresql_findMany oldest_first first_page_of_one tie_store =
     Inr [postgresql_row_to_record alice_post] \<and>
   postgresql_findMany oldest_first
     \<lparr>crit_authorDid = None, crit_limit = Some 1, crit_cursor = Some (indexedAt alice_post)\<rparr>
     tie_store = Inr [] \<and>
   indexedAt alice_post = indexedAt bob_post \<and> uri alice_post \<noteq> uri bob_post"
  by (simp add: sqlite_findMany_def postgresql_findMany_def first_page_of_one_def tie_store_def
      empty_store_def oldest_first_def newest_first_def alice_post_def bob_post_def)


section \<open>The three adapters on one sequence of operations\<close>

lemma filter_uri_other:
  "u \<notin> uri ` set rows \<Longrightarrow> filter (\<lambda>r. uri r \<noteq> u) rows = rows"
  by (induction rows) auto

lemma delete_one_filter:
  "distinct (map uri rows) \<Longrightarrow> delete_one u rows = filter (\<lambda>r. uri r \<noteq> u) rows"
  by (induction rows) (auto simp: filter_uri_other)

lemma deleted_count:
  "(length (filter (\<lambda>r. uri r \<noteq> u) rows) < length rows) = (filter (\<lambda>r. uri r = u) rows \<noteq> [])"
proof -
  have "length rows = length (filter (\<lambda>r. uri r = u) rows) + length (filter (\<lambda>r. uri r \<noteq> u) rows)"
    using sum_length_filter_compl[of "\<lambda>r. uri r = u" rows] by (simp add: comp_def)
  then show ?thesis by (cases "filter (\<lambda>r. uri r = u) rows") simp_all
qed

lemma valid_row_identity:
  assumes "valid_post p"
  shows "\<lparr>uri = uri p, cid = cid p, replyParent = or_absent (replyParent p),
          replyRoot = or_absent (replyRoot p), authorDid = authorDid p,
          recordJson = recordJson p, indexedAt = indexedAt p\<rparr> = p"
    and "\<lparr>uri = uri p, cid = cid p, replyParent = replyParent p,
          replyRoot = replyRoot p, authorDid = authorDid p,
          recordJson = recordJson p, indexedAt = indexedAt p\<rparr> = p"
  using assms by (simp_all add: valid_post_def or_absent_id)






















section \<open>The ingestion pipeline\<close>

lemma set_table_same [simp]: "set_table (posts_of a) a = a"
  by (cases a) (simp_all add: set_table_def posts_of_def)

lemma set_table_twice [simp]: "set_table t (set_table t' a) = set_table t a"
  by (cases a) (simp_all add: set_table_def)

lemma posts_of_set_table [simp]: "posts_of (set_table t a) = t"
  by (cases a) (simp_all add: set_table_def posts_of_def)

lemma connected_set_table [simp]:
  "connected (adapter_store (set_table t a)) = connected (adapter_store a)"
  by (cases a) (simp_all add: set_table_def)

lemma or_absent_twice [simp]: "or_absent (or_absent x) = or_absent x"
  by (cases x) auto

lemma or_absent_valid [simp]: "or_absent x \<noteq> Some []"
  by (cases x) auto

lemma valid_to_post [simp]: "valid_post (to_post t c)"
  by (simp add: valid_post_def to_post_def)

lemma valid_postsToCreate: "list_all valid_post (postsToCreate clock i cs)"
  by (induction cs arbitrary: i) simp_all

lemma uri_postsToCreate [simp]: "map uri (postsToCreate clock i cs) = map create_uri cs"
  by (induction cs arbitrary: i) (simp_all add: to_post_def)

lemma legacy_row_valid: "valid_post p \<Longrightarrow> legacy_row p = p"
  by (simp add: legacy_row_def valid_post_def or_absent_id)

lemma map_legacy_row_valid: "list_all valid_post ps \<Longrightarrow> map legacy_row ps = ps"
  by (induction ps) (simp_all add: legacy_row_valid)

lemma posts_create_connected:
  assumes "connected (adapter_store a)" and "valid_post p"
  shows "posts_create i p a =
    (if uri p \<in> set (map uri (posts_of a)) then (Inl UniqueViolation, a)
     else (Inr (post.extend p (post_record.fields i)), set_table (posts_of a @ [p]) a))"
  using assms valid_row_identity[OF assms(2)]
  by (cases a)
     (simp_all add: sqlite_create_def postgresql_create_def mongodb_create_def Let_def
       posts_of_def set_table_def post.extend_def post_record.fields_def)

lemma posts_deleteByUri_connected:
  assumes "connected (adapter_store a)" and "distinct (map uri (posts_of a))"
  shows "posts_deleteByUri u a =
    (Inr (u \<in> set (map uri (posts_of a))), set_table (filter (\<lambda>r. uri r \<noteq> u) (posts_of a)) a)"
proof -
  have "(filter (\<lambda>r. uri r = u) (posts_of a) \<noteq> []) = (u \<in> set (map uri (posts_of a)))"
    by (auto simp: filter_empty_conv)
  with assms show ?thesis
    by (cases a)
       (simp_all add: sqlite_deleteByUri_def postgresql_deleteByUri_def mongodb_deleteByUri_def
         Let_def posts_of_def set_table_def delete_one_filter deleted_count)
qed

lemma posts_create_disconnected:
  "\<not> connected (adapter_store a) \<Longrightarrow> posts_create i p a = (Inl NotConnected, a)"
  by (cases a) (simp_all add: sqlite_create_def postgresql_create_def mongodb_create_def)

lemma posts_deleteByUri_disconnected:
  "\<not> connected (adapter_store a) \<Longrightarrow> posts_deleteByUri u a = (Inl NotConnected, a)"
  by (cases a)
     (simp_all add: sqlite_deleteByUri_def postgresql_deleteByUri_def mongodb_deleteByUri_def)

lemma delete_loop_disconnected:
  "\<not> connected (adapter_store a) \<Longrightarrow>
   delete_loop us a = (a, map (\<lambda>u. FailedDelete u NotConnected) us)"
  by (induction us) (simp_all add: posts_deleteByUri_disconnected)

lemma create_loop_disconnected:
  "\<not> connected (adapter_store a) \<Longrightarrow>
   create_loop uuid i ps a = (a, map (\<lambda>p. FailedCreate (uri p) NotConnected) ps)"
  by (induction ps arbitrary: i) (simp_all add: posts_create_disconnected)

lemma delete_loop_connected:
  assumes "connected (adapter_store a)" and "distinct (map uri (posts_of a))"
  shows "delete_loop us a = (set_table (filter (\<lambda>r. uri r \<notin> set us) (posts_of a)) a, [])"
  using assms
proof (induction us arbitrary: a)
  case Nil
  then show ?case by simp
next
  case (Cons u us)
  let ?a1 = "set_table (filter (\<lambda>r. uri r \<noteq> u) (posts_of a)) a"
  have c: "connected (adapter_store ?a1)" using Cons.prems(1) by simp
  have d: "distinct (map uri (posts_of ?a1))" using Cons.prems(2) by (simp add: distinct_map_filter)
  have f: "filter (\<lambda>r. uri r \<notin> set us) (filter (\<lambda>r. uri r \<noteq> u) (posts_of a)) =
           filter (\<lambda>r. uri r \<notin> set (u # us)) (posts_of a)"
    by (induction "posts_of a") auto
  show ?case
    using Cons.IH[OF c d] f
    by (simp add: posts_deleteByUri_connected[OF Cons.prems])
qed

lemma create_loop_connected:
  assumes "connected (adapter_store a)" and "list_all valid_post ps"
  shows "create_loop uuid i ps a =
    (set_table (insert_do_nothing ps (posts_of a)) a, duplicate_log ps (posts_of a))"
  using assms
proof (induction ps arbitrary: a i)
  case Nil
  then show ?case by simp
next
  case (Cons p ps)
  then have v: "valid_post p" and vs: "list_all valid_post ps" by simp_all
  show ?case
  proof (cases "uri p \<in> set (map uri (posts_of a))")
    case True
    then show ?thesis
      using Cons.IH[OF Cons.prems(1) vs]
      by (simp add: posts_create_connected[OF Cons.prems(1) v])
  next
    case False
    let ?a1 = "set_table (posts_of a @ [p]) a"
    have c: "connected (adapter_store ?a1)" using Cons.prems(1) by simp
    from False show ?thesis
      using Cons.IH[OF c vs]
      by (simp add: posts_create_connected[OF Cons.prems(1) v])
  qed
qed

lemma uris_insert_do_nothing:
  "uri ` set (insert_do_nothing ps t) = uri ` set t \<union> uri ` set ps"
  by (induction ps arbitrary: t) auto

lemma insert_do_nothing_present:
  "uri ` set ps \<subseteq> uri ` set t \<Longrightarrow> insert_do_nothing ps t = t"
  by (induction ps arbitrary: t) auto

lemma distinct_insert_do_nothing:
  "distinct (map uri t) \<Longrightarrow> distinct (map uri (insert_do_nothing ps t))"
  by (induction ps arbitrary: t) auto


lemma rows_from_insert_do_nothing: "set (insert_do_nothing ps t) \<subseteq> set t \<union> set ps"
proof (induction ps arbitrary: t)
  case Nil
  then show ?case by simp
next
  case (Cons p ps)
  have "set (t @ [p]) \<union> set ps \<subseteq> set t \<union> set (p # ps)" by auto
  with Cons[of t] Cons[of "t @ [p]"] show ?case by auto
qed

lemma duplicate_log_present:
  "uri ` set ps \<subseteq> uri ` set t \<Longrightarrow>
   duplicate_log ps t = map (\<lambda>p. FailedCreate (uri p) UniqueViolation) ps"
  by (induction ps arbitrary: t) auto


lemma filter_deleted_again:
  assumes "set ds \<inter> uri ` set ps = {}"
  shows "filter (\<lambda>r. uri r \<notin> set ds) (insert_do_nothing ps (filter (\<lambda>r. uri r \<notin> set ds) t)) =
         insert_do_nothing ps (filter (\<lambda>r. uri r \<notin> set ds) t)"
proof -
  let ?t = "filter (\<lambda>r. uri r \<notin> set ds) t"
  have "uri r \<notin> set ds" if r: "r \<in> set (insert_do_nothing ps ?t)" for r
  proof -
    from r rows_from_insert_do_nothing[of ps ?t] have "r \<in> set ?t \<or> r \<in> set ps" by blast
    then show ?thesis
    proof
      assume "r \<in> set ?t"
      then show ?thesis by simp
    next
      assume "r \<in> set ps"
      then have "uri r \<in> uri ` set ps" by (rule imageI)
      with assms show ?thesis by blast
    qed
  qed
  then have "\<forall>r \<in> set (insert_do_nothing ps ?t). uri r \<notin> set ds" by blast
  then show ?thesis by (rule filter_True)
qed

lemma delivered_twice:
  assumes "set ds \<inter> uri ` set ps = {}" and "map uri ps' = map uri ps"
  shows "delivered ds ps' (delivered ds ps t) = delivered ds ps t"
proof -
  have "uri ` set ps' = uri ` set ps"
    using assms(2) by (metis set_map)
  then have "uri ` set ps' \<subseteq> uri ` set (delivered ds ps t)"
    by (simp add: delivered_def uris_insert_do_nothing)
  then show ?thesis
    using filter_deleted_again[OF assms(1), of t]
    by (simp add: delivered_def insert_do_nothing_present)
qed

lemma distinct_delivered:
  "distinct (map uri t) \<Longrightarrow> distinct (map uri (delivered ds ps t))"
  by (simp add: delivered_def distinct_insert_do_nothing distinct_map_filter)

lemma handleEvent_adapter_connected:
  assumes "dbAdapter sub = Some a" and "connected (adapter_store a)"
      and "distinct (map uri (posts_of a))"
  shows "handleEvent clock uuid (Commit ops) sub =
    (sub\<lparr>dbAdapter := Some (set_table
        (delivered (deletes ops) (postsToCreate clock 0 (creates ops)) (posts_of a)) a)\<rparr>,
     duplicate_log (postsToCreate clock 0 (creates ops))
       (filter (\<lambda>r. uri r \<notin> set (deletes ops)) (posts_of a)))"
proof -
  let ?a1 = "set_table (filter (\<lambda>r. uri r \<notin> set (deletes ops)) (posts_of a)) a"
  have c: "connected (adapter_store ?a1)" using assms(2) by simp
  show ?thesis
    using assms(1)
    by (simp add: handleEvent_def Let_def delivered_def delete_loop_connected[OF assms(2,3)]
        create_loop_connected[OF c valid_postsToCreate])
qed

lemma handleEvent_adapter_disconnected:
  assumes "dbAdapter sub = Some a" and "\<not> connected (adapter_store a)"
  shows "handleEvent clock uuid (Commit ops) sub =
    (sub,
     map (\<lambda>u. FailedDelete u NotConnected) (deletes ops) @
     map (\<lambda>c. FailedCreate (create_uri c) NotConnected) (creates ops))"
proof -
  have "map (\<lambda>p. FailedCreate (uri p) NotConnected) (postsToCreate clock i cs) =
        map (\<lambda>c. FailedCreate (create_uri c) NotConnected) cs" for i cs
    by (induction cs arbitrary: i) (simp_all add: to_post_def)
  then show ?thesis
    using assms
    by (simp add: handleEvent_def Let_def delete_loop_disconnected create_loop_disconnected)
qed

lemma handleEvent_legacy:
  assumes "dbAdapter sub = None"
  shows "handleEvent clock uuid (Commit ops) sub =
    (sub\<lparr>db := delivered (deletes ops) (postsToCreate clock 0 (creates ops)) (db sub)\<rparr>, [])"
proof -
  let ?ps = "postsToCreate clock 0 (creates ops)"
  have t1: "(if 0 < length (deletes ops)
             then filter (\<lambda>r. uri r \<notin> set (deletes ops)) (db sub) else db sub) =
            filter (\<lambda>r. uri r \<notin> set (deletes ops)) (db sub)"
    by simp
  have t2: "(if 0 < length ?ps then insert_do_nothing (map legacy_row ?ps) t else t) =
            insert_do_nothing ?ps t" for t
  proof (cases "?ps = []")
    case True
    then show ?thesis by simp
  next
    case False
    then show ?thesis by (simp add: map_legacy_row_valid[OF valid_postsToCreate])
  qed
  show ?thesis
    using assms
    by (simp add: handleEvent_def Let_def delivered_def t1 t2 del: length_greater_0_conv)
qed

lemma failed_create_postsToCreate:
  "map (\<lambda>p. FailedCreate (uri p) e) (postsToCreate clock i cs) =
   map (\<lambda>c. FailedCreate (create_uri c) e) cs"
  by (induction cs arbitrary: i) (simp_all add: to_post_def)

lemma uris_postsToCreate: "uri ` set (postsToCreate clock i cs) = create_uri ` set cs"
  using uri_postsToCreate[of clock i cs] by (metis set_map)

lemma delivered_twice_posts:
  assumes "set ds \<inter> create_uri ` set cs = {}"
  shows "delivered ds (postsToCreate clock2 0 cs) (delivered ds (postsToCreate clock1 0 cs) t) =
         delivered ds (postsToCreate clock1 0 cs) t"
  by (rule delivered_twice) (simp_all add: uris_postsToCreate assms)

lemma redelivered_log:
  assumes "set ds \<inter> create_uri ` set cs = {}"
  shows "duplicate_log (postsToCreate clock2 0 cs)
           (filter (\<lambda>r. uri r \<notin> set ds) (delivered ds (postsToCreate clock1 0 cs) t)) =
         map (\<lambda>c. FailedCreate (create_uri c) UniqueViolation) cs"
proof -
  have f: "filter (\<lambda>r. uri r \<notin> set ds) (delivered ds (postsToCreate clock1 0 cs) t) =
           delivered ds (postsToCreate clock1 0 cs) t"
    unfolding delivered_def
    by (rule filter_deleted_again) (simp add: uris_postsToCreate assms)
  have "uri ` set (postsToCreate clock2 0 cs) \<subseteq>
        uri ` set (delivered ds (postsToCreate clock1 0 cs) t)"
    by (simp add: delivered_def uris_insert_do_nothing uris_postsToCreate)
  then show ?thesis
    unfolding f by (simp add: duplicate_log_present failed_create_postsToCreate)
qed



text \<open>
  Claim C6, as amended. A batch in which no uri is both deleted and created is delivered a
  second time, at whatever readings of the clock. Then the second delivery leaves the
  subscription, with the legacy table and the adapter's store, exactly as the first
  delivery left it; no uri occurs twice; and on a connected adapter every create of the
  second delivery fails with the key violation, which is caught and logged.
\<close>

theorem redelivery_leaves_store_unchanged:
  assumes disj: "set (deletes ops) \<inter> create_uri ` set (creates ops) = {}"
      and uniq: "uris_unique sub"
      and once: "handleEvent clock1 uuid1 (Commit ops) sub = (sub1, log1)"
  shows "fst (handleEvent clock2 uuid2 (Commit ops) sub1) = sub1 \<and>
         uris_unique sub1 \<and>
         (\<forall>a1. dbAdapter sub1 = Some a1 \<and> connected (adapter_store a1) \<longrightarrow>
            snd (handleEvent clock2 uuid2 (Commit ops) sub1) =
              map (\<lambda>c. FailedCreate (create_uri c) UniqueViolation) (creates ops))"
proof (cases "dbAdapter sub")
  case None
  from once have s1: "sub1 = sub\<lparr>db := delivered (deletes ops) (postsToCreate clock1 0 (creates ops)) (db sub)\<rparr>"
    by (simp add: handleEvent_legacy[OF None])
  then have n1: "dbAdapter sub1 = None" using None by simp
  have t1: "db sub1 = delivered (deletes ops) (postsToCreate clock1 0 (creates ops)) (db sub)"
    by (simp add: s1)
  have "delivered (deletes ops) (postsToCreate clock2 0 (creates ops)) (db sub1) = db sub1"
    unfolding t1 by (rule delivered_twice_posts[OF disj])
  then have h2: "handleEvent clock2 uuid2 (Commit ops) sub1 = (sub1, [])"
    by (simp add: handleEvent_legacy[OF n1])
  have "uris_unique sub1"
    using uniq None by (simp add: uris_unique_def n1 t1 distinct_delivered)
  then show ?thesis by (simp add: h2 n1)
next
  case (Some a)
  from uniq Some have d: "distinct (map uri (posts_of a))" and dl: "distinct (map uri (db sub))"
    by (simp_all add: uris_unique_def)
  show ?thesis
  proof (cases "connected (adapter_store a)")
    case True
    let ?a1 = "set_table (delivered (deletes ops) (postsToCreate clock1 0 (creates ops)) (posts_of a)) a"
    from once have s1: "sub1 = sub\<lparr>dbAdapter := Some ?a1\<rparr>"
      by (simp add: handleEvent_adapter_connected[OF Some True d])
    then have a1: "dbAdapter sub1 = Some ?a1" by simp
    have c1: "connected (adapter_store ?a1)" using True by simp
    have d1: "distinct (map uri (posts_of ?a1))" using d by (simp add: distinct_delivered)
    have p1: "posts_of ?a1 = delivered (deletes ops) (postsToCreate clock1 0 (creates ops)) (posts_of a)"
      by simp
    have t2: "delivered (deletes ops) (postsToCreate clock2 0 (creates ops)) (posts_of ?a1) = posts_of ?a1"
      unfolding p1 by (rule delivered_twice_posts[OF disj])
    have l2: "duplicate_log (postsToCreate clock2 0 (creates ops))
                (filter (\<lambda>r. uri r \<notin> set (deletes ops)) (posts_of ?a1)) =
              map (\<lambda>c. FailedCreate (create_uri c) UniqueViolation) (creates ops)"
      unfolding p1 by (rule redelivered_log[OF disj])
    have same: "sub1\<lparr>dbAdapter := Some ?a1\<rparr> = sub1"
      by (simp add: s1)
    have h2: "handleEvent clock2 uuid2 (Commit ops) sub1 =
        (sub1, map (\<lambda>c. FailedCreate (create_uri c) UniqueViolation) (creates ops))"
      unfolding handleEvent_adapter_connected[OF a1 c1 d1] t2 l2 set_table_same same ..
    have "uris_unique sub1"
      using dl d1 by (simp add: uris_unique_def s1)
    then show ?thesis by (simp add: h2)
  next
    case False
    from once have s1: "sub1 = sub"
      by (simp add: handleEvent_adapter_disconnected[OF Some False])
    show ?thesis
      using uniq False Some
      by (simp add: s1 handleEvent_adapter_disconnected[OF Some False])
  qed
qed

theorem redelivery_leaves_store_unchanged_witness:
  "set (deletes delete_bob_create_alice) \<inter> create_uri ` set (creates delete_bob_create_alice) = {} \<and>
   uris_unique sqlite_subscription \<and>
   fst (handleEvent second_clock fixed_uuid (Commit delete_bob_create_alice)
          (fst (handleEvent first_clock fixed_uuid (Commit delete_bob_create_alice)
                  sqlite_subscription))) =
     fst (handleEvent first_clock fixed_uuid (Commit delete_bob_create_alice) sqlite_subscription)"
proof -
  have d: "set (deletes delete_bob_create_alice) \<inter>
           create_uri ` set (creates delete_bob_create_alice) = {}"
    by (simp add: delete_bob_create_alice_def alice_create_def)
  have u: "uris_unique sqlite_subscription"
    by (simp add: uris_unique_def sqlite_subscription_def posts_of_def empty_store_def)
  have o: "handleEvent first_clock fixed_uuid (Commit delete_bob_create_alice) sqlite_subscription =
      (fst (handleEvent first_clock fixed_uuid (Commit delete_bob_create_alice) sqlite_subscription),
       snd (handleEvent first_clock fixed_uuid (Commit delete_bob_create_alice) sqlite_subscription))"
    by simp
  from redelivery_leaves_store_unchanged[OF d u o, of second_clock fixed_uuid] d u
  show ?thesis by blast
qed

text \<open>
  Claim C6 as stated fails for a batch that deletes and creates the same uri. Delivered
  once, the batch leaves the post with the \<^verbatim>\<open>indexedAt\<close> of the first delivery; delivered
  again, it deletes that post and creates it anew with the \<^verbatim>\<open>indexedAt\<close> of the second
  delivery.
\<close>

theorem redelivery_changes_indexedAt_counterexample:
  "fst (handleEvent first_clock fixed_uuid (Commit replace_alice) sqlite_subscription) =
     \<lparr>db = [], dbAdapter = Some (SQLiteAdapter
        (empty_store\<lparr>post_table := [alice_post]\<rparr>))\<rparr> \<and>
   fst (handleEvent second_clock fixed_uuid (Commit replace_alice)
          (fst (handleEvent first_clock fixed_uuid (Commit replace_alice) sqlite_subscription))) =
     \<lparr>db = [], dbAdapter = Some (SQLiteAdapter
        (empty_store\<lparr>post_table := [alice_post\<lparr>indexedAt := 1672531260000\<rparr>]\<rparr>))\<rparr> \<and>
   fst (handleEvent second_clock fixed_uuid (Commit replace_alice)
          (fst (handleEvent first_clock fixed_uuid (Commit replace_alice) sqlite_subscription))) \<noteq>
     fst (handleEvent first_clock fixed_uuid (Commit replace_alice) sqlite_subscription)"
proof -
  have a: "fst (handleEvent first_clock fixed_uuid (Commit replace_alice) sqlite_subscription) =
     \<lparr>db = [], dbAdapter = Some (SQLiteAdapter
        (empty_store\<lparr>post_table := [alice_post]\<rparr>))\<rparr>"
    by (simp add: handleEvent_def replace_alice_def sqlite_subscription_def Let_def
        sqlite_deleteByUri_def sqlite_create_def empty_store_def to_post_def alice_create_def
        alice_post_def first_clock_def)
  have b: "fst (handleEvent second_clock fixed_uuid (Commit replace_alice)
     \<lparr>db = [], dbAdapter = Some (SQLiteAdapter
        (empty_store\<lparr>post_table := [alice_post]\<rparr>))\<rparr>) =
     \<lparr>db = [], dbAdapter = Some (SQLiteAdapter
        (empty_store\<lparr>post_table := [alice_post\<lparr>indexedAt := 1672531260000\<rparr>]\<rparr>))\<rparr>"
    by (simp add: handleEvent_def replace_alice_def Let_def
        sqlite_deleteByUri_def sqlite_create_def empty_store_def to_post_def alice_create_def
        alice_post_def second_clock_def)
  show ?thesis unfolding a b by (simp add: empty_store_def alice_post_def)
qed

section \<open>The filtered feed\<close>

lemma alf_filter_alf:
  assumes "parse payload_alf = Some (JObject [(''text'', JString ''I love ALF'')])"
      and "recordJson r = payload_alf"
  shows "alf_filter parse r"
  using assms by (simp add: alf_filter_def toLowerCase_def toLowerCase_char_def)

lemma alf_filter_unrelated:
  assumes "parse payload_unrelated = Some (JObject [(''text'', JString ''unrelated'')])"
      and "recordJson r = payload_unrelated"
  shows "\<not> alf_filter parse r"
  using assms by (simp add: alf_filter_def toLowerCase_def toLowerCase_char_def)

lemma alf_filter_malformed:
  assumes "parse payload_malformed = None"
      and "recordJson r = payload_malformed"
  shows "\<not> alf_filter parse r"
  using assms by (simp add: alf_filter_def)

lemma mset_single_list: "mset xs = {#x#} \<Longrightarrow> xs = [x]"
  by (cases xs) auto

lemma cid_sort_perm:
  "order_by_indexedAt_cid_desc ord \<Longrightarrow> mset (ord rows) = mset rows"
  by (simp add: order_by_indexedAt_cid_desc_def)

lemma by_indexedAt_cid_desc_ok: "order_by_indexedAt_cid_desc by_indexedAt_cid_desc"
  unfolding order_by_indexedAt_cid_desc_def by_indexedAt_cid_desc_def
proof (intro allI conjI)
  fix rows :: "post list"
  show "mset (rev (sort_key (\<lambda>r. (indexedAt r, cid r)) rows)) = mset rows" by simp
  have "sorted (map (\<lambda>r. (indexedAt r, cid r)) (sort_key (\<lambda>r. (indexedAt r, cid r)) rows))"
    by (rule sorted_sort_key)
  then have "sorted_wrt (\<lambda>a b. (indexedAt a, cid a) \<le> (indexedAt b, cid b))
      (sort_key (\<lambda>r. (indexedAt r, cid r)) rows)"
    by (simp add: sorted_wrt_map)
  then have "sorted_wrt (\<lambda>a b. (indexedAt b, cid b) \<le> (indexedAt a, cid a))
      (rev (sort_key (\<lambda>r. (indexedAt r, cid r)) rows))"
    by (simp add: sorted_wrt_rev)
  then show "sorted_wrt
      (\<lambda>a b. indexedAt b < indexedAt a \<or> (indexedAt b = indexedAt a \<and> cid b \<le> cid a))
      (rev (sort_key (\<lambda>r. (indexedAt r, cid r)) rows))"
    by (rule sorted_wrt_mono_rel[rotated]) auto
qed


lemma cid_sort_set:
  "order_by_indexedAt_cid_desc ord \<Longrightarrow> set (ord rows) = set rows"
  by (metis cid_sort_perm mset_eq_setD)


text \<open>
  Claim C8 (filter). The table behind \<^verbatim>\<open>ctx.db\<close> holds three posts, in any order, with the
  payloads \<^verbatim>\<open>{"text":"I love ALF"}\<close>, \<^verbatim>\<open>{"text":"unrelated"}\<close> and the malformed
  \<^verbatim>\<open>{"text":"not json\<close>, on which \<^verbatim>\<open>JSON.parse\<close> returns the two objects and throws.
  Then the handler, asked for 10 posts without a cursor, returns normally: its feed is
  exactly the first post and its cursor is the \<^verbatim>\<open>indexedAt\<close> of that post. The second post
  fails the test for \<^verbatim>\<open>alf\<close>; the third is dropped by the \<^verbatim>\<open>catch\<close>.
\<close>

theorem filter_returns_only_the_alf_post:
  assumes p1: "parse payload_alf = Some (JObject [(''text'', JString ''I love ALF'')])"
      and p2: "parse payload_unrelated = Some (JObject [(''text'', JString ''unrelated'')])"
      and p3: "parse payload_malformed = None"
      and ord: "order_by_indexedAt_cid_desc ord"
      and rows: "mset post_rows = {#r1, r2, r3#}"
      and j1: "recordJson r1 = payload_alf"
      and j2: "recordJson r2 = payload_unrelated"
      and j3: "recordJson r3 = payload_malformed"
  shows "handler parse ord post_rows \<lparr>param_limit = 10, param_cursor = None\<rparr> =
         Inr \<lparr>out_cursor = Some (number_toString (indexedAt r1)), out_feed = [uri r1]\<rparr>"
proof -
  have m: "mset (ord post_rows) = {#r1, r2, r3#}"
    using cid_sort_perm[OF ord] rows by simp
  then have "length (ord post_rows) = 3"
    by (metis size_mset size_add_mset size_empty numeral_3_eq_3)
  then have t: "take 30 (ord post_rows) = ord post_rows" by simp
  have "mset (filter (alf_filter parse) (ord post_rows)) = {#r1#}"
    unfolding mset_filter m
    using alf_filter_alf[of parse r1, OF p1 j1] alf_filter_unrelated[of parse r2, OF p2 j2]
      alf_filter_malformed[of parse r3, OF p3 j3]
    by simp
  then have f: "filter (alf_filter parse) (ord post_rows) = [r1]"
    by (rule mset_single_list)
  show ?thesis
    by (simp add: handler_def Let_def t f)
qed

theorem filter_returns_only_the_alf_post_witness:
  "handler sample_parse by_indexedAt_cid_desc three_rows \<lparr>param_limit = 10, param_cursor = None\<rparr> =
     Inr \<lparr>out_cursor = Some ''1672531320000'',
          out_feed = [''at://did:example:alice/app.bsky.feed.post/1'']\<rparr>"
proof -
  have p1: "sample_parse payload_alf = Some (JObject [(''text'', JString ''I love ALF'')])"
    by (simp add: sample_parse_def)
  have p2: "sample_parse payload_unrelated = Some (JObject [(''text'', JString ''unrelated'')])"
    by (simp add: sample_parse_def payload_unrelated_def payload_alf_def)
  have p3: "sample_parse payload_malformed = None"
    by (simp add: sample_parse_def payload_unrelated_def payload_alf_def payload_malformed_def)
  have rows: "mset three_rows = {#alf_row, unrelated_row, malformed_row#}"
    by (simp add: three_rows_def)
  have j: "recordJson alf_row = payload_alf" "recordJson unrelated_row = payload_unrelated"
    "recordJson malformed_row = payload_malformed"
    by (simp_all add: alf_row_def unrelated_row_def malformed_row_def)
  from filter_returns_only_the_alf_post[OF p1 p2 p3 by_indexedAt_cid_desc_ok rows j]
  show ?thesis by (simp add: alf_row_def number_toString_def)
qed


text \<open>
  Claim C9 (cursor of the filtered feed). Whenever the handler returns, there are the rows
  it fetched, all of them rows of the table, such that the feed is the uris of the rows
  returned, which are the fetched rows that pass the filter, cut to \<^verbatim>\<open>limit\<close>; the cursor
  is the \<^verbatim>\<open>indexedAt\<close> of the last row returned, printed as a decimal number, when a row
  is returned, and there is no cursor when none is: the feed is empty exactly when there
  is no cursor.
\<close>

theorem cursor_is_key_of_last_returned_row:
  assumes ord: "order_by_indexedAt_cid_desc ord"
      and res: "handler parse ord post_rows params = Inr out"
  shows "\<exists>fetched.
      set fetched \<subseteq> set post_rows \<and>
      out_feed out = map uri (take (param_limit params) (filter (alf_filter parse) fetched)) \<and>
      out_cursor out =
        (if take (param_limit params) (filter (alf_filter parse) fetched) = [] then None
         else Some (number_toString (indexedAt
                (last (take (param_limit params) (filter (alf_filter parse) fetched)))))) \<and>
      (out_feed out = [] \<longleftrightarrow> out_cursor out = None)"
proof -
  from res obtain timeStr where
    o: "out = (let builder = (case timeStr of
                            None \<Rightarrow> post_rows
                          | Some t \<Rightarrow> filter (\<lambda>r. indexedAt r < t) post_rows);
               fetchLimit = min (param_limit params * 3) 300;
               res = take fetchLimit (ord builder);
               alfPosts = filter (alf_filter parse) res;
               limitedPosts = take (param_limit params) alfPosts;
               feed = map uri limitedPosts;
               cursor = (case rev limitedPosts of
                           [] \<Rightarrow> None
                         | l # _ \<Rightarrow> Some (number_toString (indexedAt l)))
           in \<lparr>out_cursor = cursor, out_feed = feed\<rparr>)"
    by (auto simp: handler_def Let_def split: sum.splits)
  define builder where "builder = (case timeStr of
                            None \<Rightarrow> post_rows
                          | Some t \<Rightarrow> filter (\<lambda>r. indexedAt r < t) post_rows)"
  define fetched where "fetched = take (min (param_limit params * 3) 300) (ord builder)"
  define returned where "returned = take (param_limit params) (filter (alf_filter parse) fetched)"
  have b: "set builder \<subseteq> set post_rows"
    by (auto simp: builder_def split: option.splits)
  have "set fetched \<subseteq> set (ord builder)"
    unfolding fetched_def by (rule set_take_subset)
  with b cid_sort_set[OF ord, of builder] have 1: "set fetched \<subseteq> set post_rows" by simp
  have l: "(case rev xs of [] \<Rightarrow> None | l # _ \<Rightarrow> Some (number_toString (indexedAt l))) =
        (if xs = [] then None else Some (number_toString (indexedAt (last xs))))" for xs :: "post list"
    by (cases xs rule: rev_cases) simp_all
  have 2: "out_feed out = map uri returned"
    and 3: "out_cursor out =
        (if returned = [] then None else Some (number_toString (indexedAt (last returned))))"
    using o by (simp_all add: Let_def returned_def fetched_def builder_def l)
  have 4: "out_feed out = [] \<longleftrightarrow> out_cursor out = None"
    unfolding 2 3 by (cases "returned = []") simp_all
  show ?thesis
  proof (intro exI[of _ fetched] conjI)
    show "set fetched \<subseteq> set post_rows" by (rule 1)
    show "out_feed out = map uri (take (param_limit params) (filter (alf_filter parse) fetched))"
      using 2 by (simp only: returned_def)
    show "out_cursor out =
        (if take (param_limit params) (filter (alf_filter parse) fetched) = [] then None
         else Some (number_toString (indexedAt
                (last (take (param_limit params) (filter (alf_filter parse) fetched))))))"
      using 3 by (simp only: returned_def)
    show "out_feed out = [] \<longleftrightarrow> out_cursor out = None" by (rule 4)
  qed
qed


theorem cursor_is_key_of_last_returned_row_witness:
  "handler sample_parse by_indexedAt_cid_desc three_rows
       \<lparr>param_limit = 1, param_cursor = Some ''1672531380000''\<rparr> =
     Inr \<lparr>out_cursor = Some ''1672531320000'',
          out_feed = [''at://did:example:alice/app.bsky.feed.post/1'']\<rparr> \<and>
   Some ''1672531320000'' \<noteq> Some (number_toString (indexedAt malformed_row)) \<and>
   handler sample_parse by_indexedAt_cid_desc three_rows
       \<lparr>param_limit = 1, param_cursor = Some ''1672531320000''\<rparr> =
     Inr \<lparr>out_cursor = None, out_feed = []\<rparr> \<and>
   (\<exists>fetched.
      set fetched \<subseteq> set three_rows \<and>
      map uri (take 1 (filter (alf_filter sample_parse) fetched)) =
        [''at://did:example:alice/app.bsky.feed.post/1''])"
proof -
  have a: "alf_filter sample_parse alf_row" "\<not> alf_filter sample_parse unrelated_row"
    "\<not> alf_filter sample_parse malformed_row"
    by (simp_all add: alf_filter_def sample_parse_def alf_row_def unrelated_row_def
        malformed_row_def payload_alf_def payload_unrelated_def payload_malformed_def
        toLowerCase_def toLowerCase_char_def)
  have c1: "cursor_time ''1672531380000'' = Inr 1672531380000"
    and c2: "cursor_time ''1672531320000'' = Inr 1672531320000"
    by (simp_all add: cursor_time_def parseInt_def is_space_def is_digit_def digit_value_def Let_def)
  have s1: "by_indexedAt_cid_desc three_rows = [alf_row, unrelated_row, malformed_row]"
    by (simp add: by_indexedAt_cid_desc_def three_rows_def alf_row_def unrelated_row_def
        malformed_row_def)
  have f1: "filter (\<lambda>r. indexedAt r < 1672531380000) three_rows = three_rows"
    by (simp add: three_rows_def alf_row_def unrelated_row_def malformed_row_def)
  have f2: "filter (\<lambda>r. indexedAt r < 1672531320000) three_rows = [malformed_row, unrelated_row]"
    by (simp add: three_rows_def alf_row_def unrelated_row_def malformed_row_def)
  have s2: "by_indexedAt_cid_desc [malformed_row, unrelated_row] = [unrelated_row, malformed_row]"
    by (simp add: by_indexedAt_cid_desc_def unrelated_row_def malformed_row_def)
  have h1: "handler sample_parse by_indexedAt_cid_desc three_rows
       \<lparr>param_limit = 1, param_cursor = Some ''1672531380000''\<rparr> =
     Inr \<lparr>out_cursor = Some ''1672531320000'',
          out_feed = [''at://did:example:alice/app.bsky.feed.post/1'']\<rparr>"
    using a by (simp add: handler_def c1 f1 s1 Let_def alf_row_def number_toString_def)
  have h2: "handler sample_parse by_indexedAt_cid_desc three_rows
       \<lparr>param_limit = 1, param_cursor = Some ''1672531320000''\<rparr> =
     Inr \<lparr>out_cursor = None, out_feed = []\<rparr>"
    using a by (simp add: handler_def c2 f2 s2 Let_def)
  have n: "Some ''1672531320000'' \<noteq> Some (number_toString (indexedAt malformed_row))"
    by (simp add: malformed_row_def number_toString_def)
  from cursor_is_key_of_last_returned_row[OF by_indexedAt_cid_desc_ok h1] obtain fetched where
    "set fetched \<subseteq> set three_rows"
    "out_feed \<lparr>out_cursor = Some ''1672531320000'',
          out_feed = [''at://did:example:alice/app.bsky.feed.post/1'']\<rparr> =
     map uri (take (param_limit \<lparr>param_limit = 1, param_cursor = Some ''1672531380000''\<rparr>)
       (filter (alf_filter sample_parse) fetched))"
    by (elim exE conjE)
  then have "\<exists>fetched. set fetched \<subseteq> set three_rows \<and>
      map uri (take 1 (filter (alf_filter sample_parse) fetched)) =
        [''at://did:example:alice/app.bsky.feed.post/1'']"
    by (intro exI[of _ fetched]) simp
  with h1 h2 n show ?thesis by (intro conjI)
qed

end
